theory Spec2Isabelle
  imports Complex_Main
begin


section \<open>JavaScript values used by the services\<close>

text \<open>
  Exceptions are values. \<open>Error msg\<close> is \<^verbatim>\<open>new Error(msg)\<close>; \<open>ApiError status\<close> is an
  error raised by an external client library (HTTP client, generation SDK), with its
  optional \<^verbatim>\<open>status\<close> property; \<open>FsError\<close> is a failed file-system call.
\<close>

datatype error = TypeError | SyntaxError | Error string | ApiError "int option" | FsError

text \<open>
  An object is its list of properties in insertion order. Only numbers and strings occur
  as property values in the session and message objects.
\<close>

datatype jsval = JNum int | JStr string

type_synonym jsobj = "(string \<times> jsval) list"

fun obj_set :: "string \<Rightarrow> jsval \<Rightarrow> jsobj \<Rightarrow> jsobj" where
  "obj_set k v [] = [(k, v)]"
| "obj_set k v ((k', v') # ps) = (if k' = k then (k, v) # ps else (k', v') # obj_set k v ps)"

text \<open>
  A string held by the key/value store is either a plain string that is not JSON text
  (\<^verbatim>\<open>JSON.parse\<close> throws a SyntaxError on it; the empty string is \<open>Plain []\<close>), or the
  text \<^verbatim>\<open>JSON.stringify(o)\<close> of an object \<open>o\<close>, kept symbolically as \<open>JSON o\<close>.
  A stored value is such a string or an array of them.
\<close>

datatype jstext = Plain string | JSON jsobj

datatype val = Str jstext | Arr "jstext list"

text \<open>JavaScript truthiness: the empty string is falsy, every array is truthy.\<close>

fun truthy :: "val \<Rightarrow> bool" where
  "truthy (Str (Plain s)) = (s \<noteq> [])"
| "truthy (Str (JSON obj)) = True"
| "truthy (Arr xs) = True"

text \<open>
  \<^verbatim>\<open>Array.prototype.slice(start, end)\<close>: a negative index counts from the end, both
  indices are clamped to the array.
\<close>

definition js_slice :: "'a list \<Rightarrow> int \<Rightarrow> int \<Rightarrow> 'a list" where
  "js_slice xs start fin =
     (let n = int (length xs);
          k = (if start < 0 then max (n + start) 0 else min start n);
          e = (if fin < 0 then max (n + fin) 0 else min fin n)
      in take (nat (e - k)) (drop (nat k) xs))"

text \<open>
  \<^verbatim>\<open>JSON.parse(v)\<close>. An array argument is first converted to a string: a one-element
  array to its element, any other array to text that is not JSON.
\<close>

fun JSON_parse :: "val \<Rightarrow> error + jsobj" where
  "JSON_parse (Str (JSON obj)) = Inr obj"
| "JSON_parse (Str (Plain s)) = Inl SyntaxError"
| "JSON_parse (Arr [JSON obj]) = Inr obj"
| "JSON_parse (Arr xs) = Inl SyntaxError"

section \<open>services/redis.js: the in-memory key/value store\<close>

type_synonym key = string

record InMemoryStore =
  store :: "key \<Rightarrow> val option"
  ttls :: "key \<Rightarrow> int option"

definition newInMemoryStore :: InMemoryStore where
  "newInMemoryStore = \<lparr>store = Map.empty, ttls = Map.empty\<rparr>"

text \<open>
  Every operation takes the reading \<open>now\<close> of \<^verbatim>\<open>Date.now()\<close> (milliseconds) where the
  source reads the clock. \<^verbatim>\<open>expiry && Date.now() > expiry\<close>: a missing or zero expiry is
  falsy.
\<close>

definition checkExpiry :: "InMemoryStore \<Rightarrow> int \<Rightarrow> key \<Rightarrow> InMemoryStore" where
  "checkExpiry st now k =
     (case ttls st k of
        None \<Rightarrow> st
      | Some expiry \<Rightarrow>
          if expiry \<noteq> 0 \<and> now > expiry
          then st\<lparr>store := (store st)(k := None), ttls := (ttls st)(k := None)\<rparr>
          else st)"

text \<open>\<^verbatim>\<open>get\<close> returns \<^verbatim>\<open>value || null\<close>; \<open>None\<close> is \<^verbatim>\<open>null\<close>.\<close>

definition get :: "InMemoryStore \<Rightarrow> int \<Rightarrow> key \<Rightarrow> val option \<times> InMemoryStore" where
  "get st now k =
     (let st' = checkExpiry st now k
      in (case store st' k of
            None \<Rightarrow> None
          | Some v \<Rightarrow> if truthy v then Some v else None,
          st'))"

text \<open>
  \<^verbatim>\<open>set(key, value, 'EX', seconds)\<close> with a numeric \<open>seconds\<close>; \<open>ex = None\<close> is the call
  without the \<^verbatim>\<open>EX\<close> option. A zero \<open>seconds\<close> is falsy and leaves the expiry as it was.
\<close>

definition set_store :: "InMemoryStore \<Rightarrow> int \<Rightarrow> key \<Rightarrow> val \<Rightarrow> int option \<Rightarrow> InMemoryStore" where
  "set_store st now k v ex =
     (let st' = st\<lparr>store := (store st)(k \<mapsto> v)\<rparr>
      in case ex of
           None \<Rightarrow> st'
         | Some seconds \<Rightarrow>
             if seconds \<noteq> 0 then st'\<lparr>ttls := (ttls st')(k \<mapsto> now + seconds * 1000)\<rparr> else st')"

definition setex :: "InMemoryStore \<Rightarrow> int \<Rightarrow> key \<Rightarrow> int \<Rightarrow> val \<Rightarrow> InMemoryStore" where
  "setex st now k seconds v =
     st\<lparr>store := (store st)(k \<mapsto> v), ttls := (ttls st)(k \<mapsto> now + seconds * 1000)\<rparr>"

definition del :: "InMemoryStore \<Rightarrow> key \<Rightarrow> nat \<times> InMemoryStore" where
  "del st k = (1, st\<lparr>store := (store st)(k := None), ttls := (ttls st)(k := None)\<rparr>)"

text \<open>
  \<^verbatim>\<open>rpush\<close>: \<^verbatim>\<open>const list = this.store.get(key) || []\<close>, then \<^verbatim>\<open>list.push(...values)\<close>. It
  does not look at the expiry. On a non-empty string \<^verbatim>\<open>push\<close> is not a function.
\<close>

definition rpush :: "InMemoryStore \<Rightarrow> key \<Rightarrow> jstext list \<Rightarrow> (error + nat) \<times> InMemoryStore" where
  "rpush st k values =
     (case (case store st k of
              None \<Rightarrow> Inr []
            | Some v \<Rightarrow>
                if truthy v then (case v of Arr xs \<Rightarrow> Inr xs | Str s \<Rightarrow> Inl TypeError)
                else Inr []) of
        Inl e \<Rightarrow> (Inl e, st)
      | Inr xs \<Rightarrow>
          (Inr (length (xs @ values)), st\<lparr>store := (store st)(k \<mapsto> Arr (xs @ values))\<rparr>))"

text \<open>
  \<^verbatim>\<open>lrange\<close> slices what the key holds. On an array that is a list of elements; on a
  non-empty string \<^verbatim>\<open>slice\<close> is the string's own, and the result is that substring, kept
  symbolically.
\<close>

datatype lrange_result = Elements "jstext list" | Substring jstext int int

definition lrange :: "InMemoryStore \<Rightarrow> int \<Rightarrow> key \<Rightarrow> int \<Rightarrow> int \<Rightarrow> lrange_result \<times> InMemoryStore" where
  "lrange st now k start stop =
     (let st' = checkExpiry st now k
      in (case store st' k of
            None \<Rightarrow> Elements []
          | Some v \<Rightarrow>
              if truthy v
              then (case v of
                      Arr xs \<Rightarrow>
                        Elements (js_slice xs start (if stop = -1 then int (length xs) else stop + 1))
                    | Str s \<Rightarrow> Substring s start stop)
              else Elements [],
          st'))"

definition expire :: "InMemoryStore \<Rightarrow> int \<Rightarrow> key \<Rightarrow> int \<Rightarrow> nat \<times> InMemoryStore" where
  "expire st now k seconds =
     (if store st k \<noteq> None
      then (1, st\<lparr>ttls := (ttls st)(k \<mapsto> now + seconds * 1000)\<rparr>)
      else (0, st))"

definition exists :: "InMemoryStore \<Rightarrow> int \<Rightarrow> key \<Rightarrow> nat \<times> InMemoryStore" where
  "exists st now k =
     (let st' = checkExpiry st now k
      in (if store st' k \<noteq> None then 1 else 0, st'))"

section \<open>config/index.js and the clock\<close>

record config =
  sessionTTL :: int
  jinaApiKey :: "string option"

definition rag_topK :: int where
  "rag_topK = 5"

text \<open>
  One reading of the clock: \<^verbatim>\<open>Date.now()\<close> in milliseconds and the text of
  \<^verbatim>\<open>new Date().toISOString()\<close>. The calls of one request read the same instant.
\<close>

record clock =
  Date_now :: int
  toISOString :: string

section \<open>services/session.js\<close>

definition sessionPrefix :: string where
  "sessionPrefix = ''session:''"

definition historyPrefix :: string where
  "historyPrefix = ''history:''"

text \<open>The identifier \<open>uuid\<close> is the result of the call of \<^verbatim>\<open>uuidv4()\<close>.\<close>

definition createSession :: "config \<Rightarrow> InMemoryStore \<Rightarrow> clock \<Rightarrow> string \<Rightarrow> jsobj \<times> InMemoryStore" where
  "createSession cfg st clk uuid =
     (let sessionData =
            [(''id'', JStr uuid), (''createdAt'', JStr (toISOString clk)), (''messageCount'', JNum 0)]
      in (sessionData,
          setex st (Date_now clk) (sessionPrefix @ uuid) (sessionTTL cfg) (Str (JSON sessionData))))"

definition getSession :: "InMemoryStore \<Rightarrow> clock \<Rightarrow> string \<Rightarrow> (error + jsobj option) \<times> InMemoryStore" where
  "getSession st clk sessionId =
     (case get st (Date_now clk) (sessionPrefix @ sessionId) of
        (None, st') \<Rightarrow> (Inr None, st')
      | (Some data, st') \<Rightarrow>
          (case JSON_parse data of
             Inl e \<Rightarrow> (Inl e, st')
           | Inr obj \<Rightarrow> (Inr (Some obj), st')))"

definition validateSession :: "config \<Rightarrow> InMemoryStore \<Rightarrow> clock \<Rightarrow> string \<Rightarrow> bool \<times> InMemoryStore" where
  "validateSession cfg st clk sessionId =
     (case exists st (Date_now clk) (sessionPrefix @ sessionId) of
        (n, st1) \<Rightarrow>
          if n \<noteq> 0
          then (let st2 = snd (expire st1 (Date_now clk) (sessionPrefix @ sessionId) (sessionTTL cfg));
                    st3 = snd (expire st2 (Date_now clk) (historyPrefix @ sessionId) (sessionTTL cfg))
                in (True, st3))
          else (False, st1))"

text \<open>\<^verbatim>\<open>(sessionData.messageCount || 0) + 1\<close>; on a non-empty string \<^verbatim>\<open>+\<close> concatenates.\<close>

fun next_count :: "jsval option \<Rightarrow> jsval" where
  "next_count None = JNum 1"
| "next_count (Some (JNum n)) = JNum ((if n \<noteq> 0 then n else 0) + 1)"
| "next_count (Some (JStr s)) = (if s \<noteq> [] then JStr (s @ ''1'') else JNum 1)"

definition addMessage ::
  "config \<Rightarrow> InMemoryStore \<Rightarrow> clock \<Rightarrow> string \<Rightarrow> string \<Rightarrow> string \<Rightarrow> string \<Rightarrow> (error + jsobj) \<times> InMemoryStore" where
  "addMessage cfg st clk uuid sessionId role content =
     (let message =
            [(''id'', JStr uuid), (''role'', JStr role), (''content'', JStr content),
             (''timestamp'', JStr (toISOString clk))]
      in case rpush st (historyPrefix @ sessionId) [JSON message] of
           (Inl e, st1) \<Rightarrow> (Inl e, st1)
         | (Inr n, st1) \<Rightarrow>
             (case getSession st1 clk sessionId of
                (Inl e, st2) \<Rightarrow> (Inl e, st2)
              | (Inr found, st2) \<Rightarrow>
                  (let st3 =
                         (case found of
                            None \<Rightarrow> st2
                          | Some sessionData \<Rightarrow>
                              setex st2 (Date_now clk) (sessionPrefix @ sessionId) (sessionTTL cfg)
                                (Str (JSON (obj_set ''messageCount''
                                   (next_count (map_of sessionData ''messageCount'')) sessionData))));
                       st4 = snd (expire st3 (Date_now clk) (historyPrefix @ sessionId) (sessionTTL cfg))
                   in (Inr message, st4))))"

fun parse_each :: "jstext list \<Rightarrow> error + jsobj list" where
  "parse_each [] = Inr []"
| "parse_each (msg # msgs) =
     (case JSON_parse (Str msg) of
        Inl e \<Rightarrow> Inl e
      | Inr obj \<Rightarrow> (case parse_each msgs of Inl e \<Rightarrow> Inl e | Inr objs \<Rightarrow> Inr (obj # objs)))"

text \<open>
  \<^verbatim>\<open>getHistory\<close>: \<^verbatim>\<open>lrange(key, -limit, -1)\<close>, then \<^verbatim>\<open>messages.map(msg => JSON.parse(msg))\<close>;
  a string has no \<^verbatim>\<open>map\<close>.
\<close>

definition getHistory :: "InMemoryStore \<Rightarrow> clock \<Rightarrow> string \<Rightarrow> int \<Rightarrow> (error + jsobj list) \<times> InMemoryStore" where
  "getHistory st clk sessionId limit =
     (case lrange st (Date_now clk) (historyPrefix @ sessionId) (- limit) (- 1) of
        (Elements messages, st') \<Rightarrow> (parse_each messages, st')
      | (Substring s i j, st') \<Rightarrow> (Inl TypeError, st'))"

definition clearHistory :: "config \<Rightarrow> InMemoryStore \<Rightarrow> clock \<Rightarrow> string \<Rightarrow> (error + unit) \<times> InMemoryStore" where
  "clearHistory cfg st clk sessionId =
     (let st1 = snd (del st (historyPrefix @ sessionId))
      in case getSession st1 clk sessionId of
           (Inl e, st2) \<Rightarrow> (Inl e, st2)
         | (Inr None, st2) \<Rightarrow> (Inr (), st2)
         | (Inr (Some sessionData), st2) \<Rightarrow>
             (Inr (),
              setex st2 (Date_now clk) (sessionPrefix @ sessionId) (sessionTTL cfg)
                (Str (JSON (obj_set ''messageCount'' (JNum 0) sessionData)))))"

definition deleteSession :: "InMemoryStore \<Rightarrow> string \<Rightarrow> InMemoryStore" where
  "deleteSession st sessionId =
     snd (del (snd (del st (sessionPrefix @ sessionId))) (historyPrefix @ sessionId))"

text \<open>
  The condition under which \<open>checkExpiry\<close> evicts a key, as a predicate for stating
  properties: the key has a recorded, non-zero expiry instant that lies in the past.
\<close>

definition expired :: "InMemoryStore \<Rightarrow> int \<Rightarrow> key \<Rightarrow> bool" where
  "expired st now k =
     (case ttls st k of None \<Rightarrow> False | Some expiry \<Rightarrow> expiry \<noteq> 0 \<and> now > expiry)"

section \<open>JavaScript numbers\<close>

text \<open>
  A number is an IEEE 754 double: a finite value, an infinity or NaN. The result of an
  operation on finite numbers is the exact real result rounded to the nearest double,
  ties to the even significand (\<open>round64\<close>): 53 significant bits, and no exponent below
  that of \<^verbatim>\<open>Number.MIN_VALUE\<close>, so that a result too small in magnitude becomes 0
  (underflow). A rounded result beyond \<^verbatim>\<open>Number.MAX_VALUE\<close> is an infinity
  (\<open>overflow\<close>), and the infinities and NaN combine as the standard prescribes. The two
  zeros are one value: the code compares with \<^verbatim>\<open>===\<close> and by subtraction, for which
  they are equal, and never divides by zero.
\<close>

datatype jsnum = Fin real | PInf | NInf | NaN

definition MAX_VALUE :: real where
  "MAX_VALUE = (2 ^ 53 - 1) * 2 ^ 971"

definition MIN_VALUE :: real where
  "MIN_VALUE = 2 powr (- 1074)"

text \<open>Rounding to the nearest integer, a tie going to the even one.\<close>

definition round_half_even :: "real \<Rightarrow> int" where
  "round_half_even q =
     (let f = \<lfloor>q\<rfloor>; d = q - of_int f
      in if d < 1 / 2 then f else if d > 1 / 2 then f + 1 else if even f then f else f + 1)"

text \<open>
  The exponent of the last significant bit of the doubles around \<open>r\<close>: 52 binary places
  below the leading bit of \<open>r\<close>, and not below that of \<^verbatim>\<open>Number.MIN_VALUE\<close>.
\<close>

definition exponent :: "real \<Rightarrow> int" where
  "exponent r = max (\<lfloor>log 2 \<bar>r\<bar>\<rfloor> - 52) (- 1074)"

definition round64 :: "real \<Rightarrow> real" where
  "round64 r =
     (if r = 0 then 0
      else of_int (round_half_even (r / 2 powr of_int (exponent r))) * 2 powr of_int (exponent r))"

text \<open>Every double is a multiple of \<^verbatim>\<open>Number.MIN_VALUE\<close>.\<close>

definition on_grid :: "real \<Rightarrow> bool" where
  "on_grid r = (r / MIN_VALUE \<in> \<int>)"

definition overflow :: "real \<Rightarrow> jsnum" where
  "overflow r = (if r > MAX_VALUE then PInf else if r < - MAX_VALUE then NInf else Fin r)"

fun js_add :: "jsnum \<Rightarrow> jsnum \<Rightarrow> jsnum" where
  "js_add NaN y = NaN"
| "js_add x NaN = NaN"
| "js_add (Fin x) (Fin y) = overflow (round64 (x + y))"
| "js_add PInf NInf = NaN"
| "js_add NInf PInf = NaN"
| "js_add PInf y = PInf"
| "js_add x PInf = PInf"
| "js_add NInf y = NInf"
| "js_add x NInf = NInf"

fun js_sub :: "jsnum \<Rightarrow> jsnum \<Rightarrow> jsnum" where
  "js_sub NaN y = NaN"
| "js_sub x NaN = NaN"
| "js_sub (Fin x) (Fin y) = overflow (round64 (x - y))"
| "js_sub PInf PInf = NaN"
| "js_sub NInf NInf = NaN"
| "js_sub PInf y = PInf"
| "js_sub x PInf = NInf"
| "js_sub NInf y = NInf"
| "js_sub x NInf = PInf"

fun js_mul :: "jsnum \<Rightarrow> jsnum \<Rightarrow> jsnum" where
  "js_mul NaN y = NaN"
| "js_mul x NaN = NaN"
| "js_mul (Fin x) (Fin y) = overflow (round64 (x * y))"
| "js_mul (Fin x) PInf = (if x = 0 then NaN else if x > 0 then PInf else NInf)"
| "js_mul (Fin x) NInf = (if x = 0 then NaN else if x > 0 then NInf else PInf)"
| "js_mul PInf (Fin y) = (if y = 0 then NaN else if y > 0 then PInf else NInf)"
| "js_mul NInf (Fin y) = (if y = 0 then NaN else if y > 0 then NInf else PInf)"
| "js_mul PInf PInf = PInf"
| "js_mul PInf NInf = NInf"
| "js_mul NInf PInf = NInf"
| "js_mul NInf NInf = PInf"

text \<open>Zero is taken as \<open>+0\<close> where a finite number is divided by it.\<close>

fun js_div :: "jsnum \<Rightarrow> jsnum \<Rightarrow> jsnum" where
  "js_div NaN y = NaN"
| "js_div x NaN = NaN"
| "js_div (Fin x) (Fin y) =
     (if y = 0 then (if x = 0 then NaN else if x > 0 then PInf else NInf)
      else overflow (round64 (x / y)))"
| "js_div (Fin x) PInf = Fin 0"
| "js_div (Fin x) NInf = Fin 0"
| "js_div PInf (Fin y) = (if y \<ge> 0 then PInf else NInf)"
| "js_div NInf (Fin y) = (if y \<ge> 0 then NInf else PInf)"
| "js_div x y = NaN"

text \<open>
  \<^verbatim>\<open>Math.sqrt\<close>, as the engines compute it: the square root rounded to the nearest
  double, which is never beyond the range.
\<close>

fun js_sqrt :: "jsnum \<Rightarrow> jsnum" where
  "js_sqrt (Fin x) = (if x < 0 then NaN else Fin (round64 (sqrt x)))"
| "js_sqrt PInf = PInf"
| "js_sqrt NInf = NaN"
| "js_sqrt NaN = NaN"

text \<open>The comparison \<^verbatim>\<open>x > y\<close> of two numbers; it is false when either is NaN.\<close>

fun js_gt :: "jsnum \<Rightarrow> jsnum \<Rightarrow> bool" where
  "js_gt NaN y = False"
| "js_gt x NaN = False"
| "js_gt (Fin x) (Fin y) = (x > y)"
| "js_gt PInf PInf = False"
| "js_gt NInf NInf = False"
| "js_gt PInf y = True"
| "js_gt x PInf = False"
| "js_gt NInf y = False"
| "js_gt x NInf = True"

text \<open>
  \<^verbatim>\<open>Array.prototype.sort(compareFn)\<close> is stable: an element goes behind another only
  where \<^verbatim>\<open>compareFn\<close> is positive for the pair, and a NaN result counts as 0. For a
  comparator that orders the elements consistently this fixes the result; for any
  other the standard leaves the order to the engine, and the model is insertion from
  the right.
\<close>

fun positive :: "jsnum \<Rightarrow> bool" where
  "positive (Fin r) = (r > 0)"
| "positive PInf = True"
| "positive NInf = False"
| "positive NaN = False"

fun insert_stable :: "('a \<Rightarrow> 'a \<Rightarrow> jsnum) \<Rightarrow> 'a \<Rightarrow> 'a list \<Rightarrow> 'a list" where
  "insert_stable compareFn x [] = [x]"
| "insert_stable compareFn x (y # ys) =
     (if positive (compareFn x y) then y # insert_stable compareFn x ys else x # y # ys)"

definition js_sort :: "('a \<Rightarrow> 'a \<Rightarrow> jsnum) \<Rightarrow> 'a list \<Rightarrow> 'a list" where
  "js_sort compareFn xs = foldr (insert_stable compareFn) xs []"

section \<open>External collaborators\<close>

type_synonym vec = "jsnum list"

text \<open>
  A turn of the request sent to the generation model: its role and its text. The text of
  a turn taken from the history is the \<^verbatim>\<open>content\<close> property of a stored message, whatever
  it holds.
\<close>

type_synonym content = "string \<times> jsval option"

text \<open>
  What the code calls and does not define:
  \<^item> \<open>jinaEmbed\<close>: the HTTP call of \<^verbatim>\<open>_jinaEmbed\<close> with the mapping of the response
    items to their \<^verbatim>\<open>embedding\<close> property (\<open>None\<close> is \<^verbatim>\<open>undefined\<close>);
  \<^item> \<open>localVector\<close>: the token-hashing vector that \<^verbatim>\<open>_localEmbed\<close> computes for one text;
  \<^item> \<open>generateContent\<close>: \<^verbatim>\<open>model.generateContent\<close> followed by \<^verbatim>\<open>response.text()\<close>;
  \<^item> \<open>generateContentStream\<close>: \<^verbatim>\<open>model.generateContentStream\<close> and the iteration of its
    stream: the chunk texts that arrive, and the error that ends the iteration early,
    if any;
  \<^item> \<open>toFixed4\<close>: \<^verbatim>\<open>Number.prototype.toFixed(4)\<close>.
\<close>

record services =
  jinaEmbed :: "string option list \<Rightarrow> error + vec option list"
  localVector :: "string \<Rightarrow> vec"
  generateContent :: "content list \<Rightarrow> error + string"
  generateContentStream :: "content list \<Rightarrow> string list \<times> error option"
  toFixed4 :: "jsnum \<Rightarrow> string"

section \<open>services/embedding.js\<close>

text \<open>
  \<^verbatim>\<open>_localEmbed\<close> maps over the texts and calls \<^verbatim>\<open>text.toLowerCase()\<close> on each: a text
  that is \<^verbatim>\<open>undefined\<close> raises a TypeError.
\<close>

fun localEmbed :: "services \<Rightarrow> string option list \<Rightarrow> error + vec option list" where
  "localEmbed sv [] = Inr []"
| "localEmbed sv (None # texts) = Inl TypeError"
| "localEmbed sv (Some t # texts) =
     (case localEmbed sv texts of
        Inl e \<Rightarrow> Inl e
      | Inr vs \<Rightarrow> Inr (Some (localVector sv t) # vs))"

datatype embed_input = Texts "string option list" | Text string

definition generateEmbeddings :: "config \<Rightarrow> services \<Rightarrow> embed_input \<Rightarrow> error + vec option list" where
  "generateEmbeddings cfg sv texts =
     (let textArray = (case texts of Texts ts \<Rightarrow> ts | Text t \<Rightarrow> [Some t])
      in case (if (case jinaApiKey cfg of
                     None \<Rightarrow> False
                   | Some k \<Rightarrow> k \<noteq> [] \<and> k \<noteq> ''your_jina_api_key_here'')
               then jinaEmbed sv textArray
               else localEmbed sv textArray) of
           Inr vs \<Rightarrow> Inr vs
         | Inl e \<Rightarrow> localEmbed sv textArray)"

text \<open>
  The loop of \<^verbatim>\<open>cosineSimilarity\<close> runs over the indices of \<^verbatim>\<open>vecA\<close>; an index beyond
  \<^verbatim>\<open>vecB\<close> reads \<^verbatim>\<open>undefined\<close>, which is NaN in arithmetic.
\<close>

fun accumulate :: "vec \<Rightarrow> vec \<Rightarrow> jsnum \<times> jsnum \<times> jsnum \<Rightarrow> jsnum \<times> jsnum \<times> jsnum" where
  "accumulate [] vecB acc = acc"
| "accumulate (a # vecA) vecB (dotProduct, normA, normB) =
     (let b = (case vecB of [] \<Rightarrow> NaN | b # bs \<Rightarrow> b)
      in accumulate vecA (tl vecB)
           (js_add dotProduct (js_mul a b), js_add normA (js_mul a a), js_add normB (js_mul b b)))"

text \<open>
  An argument that is \<^verbatim>\<open>undefined\<close> raises a TypeError where a property of it is read:
  \<^verbatim>\<open>vecA.length\<close> always, \<^verbatim>\<open>vecB[i]\<close> when the loop runs at least once.
\<close>

fun cosineSimilarity :: "vec option \<Rightarrow> vec option \<Rightarrow> error + jsnum" where
  "cosineSimilarity None vecB = Inl TypeError"
| "cosineSimilarity (Some vecA) None = (if vecA = [] then Inr (Fin 0) else Inl TypeError)"
| "cosineSimilarity (Some vecA) (Some vecB) =
     (case accumulate vecA vecB (Fin 0, Fin 0, Fin 0) of
        (dotProduct, normA, normB) \<Rightarrow>
          (let denominator = js_mul (js_sqrt normA) (js_sqrt normB)
           in Inr (if denominator = Fin 0 then Fin 0 else js_div dotProduct denominator)))"

text \<open>
  The squared Euclidean norm of the specification, for a list of real numbers.
\<close>

definition spec_norm2 :: "real list \<Rightarrow> real" where
  "spec_norm2 a = sum_list (map (\<lambda>x. x * x) a)"

section \<open>services/vectorStore.js\<close>

text \<open>
  A document handed to \<open>addDocuments\<close>: \<open>None\<close> is a property that is missing
  (\<^verbatim>\<open>undefined\<close>). The index is three parallel arrays; an array element can be
  \<^verbatim>\<open>undefined\<close> where the source pushes one.
\<close>

record doc =
  d_text :: "string option"
  d_metadata :: "jsobj option"

record VectorStore =
  documents :: "string option list"
  embeddings :: "vec option list"
  metadata :: "jsobj list"
  isLoaded :: bool

definition newVectorStore :: VectorStore where
  "newVectorStore = \<lparr>documents = [], embeddings = [], metadata = [], isLoaded = False\<rparr>"

text \<open>
  The file \<^verbatim>\<open>index.json\<close> under the store path, as the object it parses to: \<open>None\<close>
  for a file that is missing or is not JSON, and \<open>None\<close> for a property that the object
  lacks. \<open>writable\<close> tells whether \<^verbatim>\<open>mkdir\<close> and \<^verbatim>\<open>writeFile\<close> succeed.
\<close>

record snapshot =
  s_documents :: "string option list option"
  s_embeddings :: "vec option list option"
  s_metadata :: "jsobj list option"
  s_timestamp :: string

record disk =
  index_json :: "snapshot option"
  writable :: bool

definition save :: "VectorStore \<Rightarrow> disk \<Rightarrow> clock \<Rightarrow> error + disk" where
  "save vs dk clk =
     (if writable dk
      then Inr (dk\<lparr>index_json :=
                  Some \<lparr>s_documents = Some (documents vs), s_embeddings = Some (embeddings vs),
                        s_metadata = Some (metadata vs), s_timestamp = toISOString clk\<rparr>\<rparr>)
      else Inl FsError)"

definition load :: "VectorStore \<Rightarrow> disk \<Rightarrow> error + VectorStore" where
  "load vs dk =
     (case index_json dk of
        None \<Rightarrow> Inl FsError
      | Some data \<Rightarrow>
          Inr (vs\<lparr>documents := (case s_documents data of None \<Rightarrow> [] | Some ds \<Rightarrow> ds),
                  embeddings := (case s_embeddings data of None \<Rightarrow> [] | Some es \<Rightarrow> es),
                  metadata := (case s_metadata data of None \<Rightarrow> [] | Some ms \<Rightarrow> ms)\<rparr>))"

definition VectorStore_initialize :: "VectorStore \<Rightarrow> disk \<Rightarrow> VectorStore" where
  "VectorStore_initialize vs dk =
     (case load vs dk of
        Inr vs' \<Rightarrow> vs'\<lparr>isLoaded := True\<rparr>
      | Inl e \<Rightarrow> vs\<lparr>isLoaded := True\<rparr>)"

text \<open>Reading an array at an index: \<^verbatim>\<open>undefined\<close> beyond its end.\<close>

definition at_index :: "'a option list \<Rightarrow> nat \<Rightarrow> 'a option" where
  "at_index xs i = (if i < length xs then xs ! i else None)"

definition at_index_obj :: "'a list \<Rightarrow> nat \<Rightarrow> 'a option" where
  "at_index_obj xs i = (if i < length xs then Some (xs ! i) else None)"

text \<open>The loop of \<open>addDocuments\<close>, from index \<open>i\<close> on.\<close>

fun push_loop :: "doc list \<Rightarrow> vec option list \<Rightarrow> nat \<Rightarrow> VectorStore \<Rightarrow> VectorStore" where
  "push_loop [] embs i vs = vs"
| "push_loop (d # ds) embs i vs =
     push_loop ds embs (Suc i)
       (vs\<lparr>documents := documents vs @ [d_text d],
            embeddings := embeddings vs @ [at_index embs i],
            metadata := metadata vs @ [case d_metadata d of None \<Rightarrow> [] | Some m \<Rightarrow> m]\<rparr>)"

definition addDocuments ::
  "config \<Rightarrow> services \<Rightarrow> VectorStore \<Rightarrow> disk \<Rightarrow> clock \<Rightarrow> doc list
     \<Rightarrow> (error + unit) \<times> VectorStore \<times> disk" where
  "addDocuments cfg sv vs dk clk docs =
     (case generateEmbeddings cfg sv (Texts (map d_text docs)) of
        Inl e \<Rightarrow> (Inl e, vs, dk)
      | Inr embs \<Rightarrow>
          (let vs' = push_loop docs embs 0 vs
           in case save vs' dk clk of
                Inl e \<Rightarrow> (Inl e, vs', dk)
              | Inr dk' \<Rightarrow> (Inr (), vs', dk')))"

definition clear :: "VectorStore \<Rightarrow> disk \<Rightarrow> clock \<Rightarrow> (error + unit) \<times> VectorStore \<times> disk" where
  "clear vs dk clk =
     (let vs' = vs\<lparr>documents := [], embeddings := [], metadata := []\<rparr>
      in case save vs' dk clk of
           Inl e \<Rightarrow> (Inl e, vs', dk)
         | Inr dk' \<Rightarrow> (Inr (), vs', dk'))"

definition getDocumentCount :: "VectorStore \<Rightarrow> nat" where
  "getDocumentCount vs = length (documents vs)"

text \<open>
  \<^verbatim>\<open>this.embeddings.map((embedding, index) => ({index, score: ...}))\<close>, from index \<open>i\<close>
  on; the first call of \<open>cosineSimilarity\<close> that raises ends it.
\<close>

fun similarities :: "vec option \<Rightarrow> vec option list \<Rightarrow> nat \<Rightarrow> error + (nat \<times> jsnum) list" where
  "similarities queryEmbedding [] i = Inr []"
| "similarities queryEmbedding (embedding # es) i =
     (case cosineSimilarity queryEmbedding embedding of
        Inl e \<Rightarrow> Inl e
      | Inr score \<Rightarrow>
          (case similarities queryEmbedding es (Suc i) of
             Inl e \<Rightarrow> Inl e
           | Inr rest \<Rightarrow> Inr ((i, score) # rest)))"

text \<open>The comparator \<^verbatim>\<open>(a, b) => b.score - a.score\<close> on pairs of index and score.\<close>

definition compareFn :: "nat \<times> jsnum \<Rightarrow> nat \<times> jsnum \<Rightarrow> jsnum" where
  "compareFn a b = js_sub (snd b) (snd a)"

text \<open>
  \<open>topResults\<close> is the local variable of that name in \<open>search\<close>: the sorted
  similarities cut to \<open>topK\<close>.
\<close>

definition topResults ::
  "config \<Rightarrow> services \<Rightarrow> VectorStore \<Rightarrow> string \<Rightarrow> int \<Rightarrow> error + (nat \<times> jsnum) list" where
  "topResults cfg sv vs query topK =
     (case generateEmbeddings cfg sv (Text query) of
        Inl e \<Rightarrow> Inl e
      | Inr embs \<Rightarrow>
          (let queryEmbedding = (case embs of [] \<Rightarrow> None | q # rest \<Rightarrow> q)
           in case similarities queryEmbedding (embeddings vs) 0 of
                Inl e \<Rightarrow> Inl e
              | Inr sims \<Rightarrow> Inr (js_slice (js_sort compareFn sims) 0 topK)))"

record search_result =
  r_text :: "string option"
  r_score :: jsnum
  r_metadata :: "jsobj option"

definition result_of :: "VectorStore \<Rightarrow> nat \<times> jsnum \<Rightarrow> search_result" where
  "result_of vs r =
     \<lparr>r_text = at_index (documents vs) (fst r), r_score = snd r,
      r_metadata = at_index_obj (metadata vs) (fst r)\<rparr>"

definition search ::
  "config \<Rightarrow> services \<Rightarrow> VectorStore \<Rightarrow> string \<Rightarrow> int \<Rightarrow> error + search_result list" where
  "search cfg sv vs query topK =
     (if documents vs = [] then Inr []
      else case topResults cfg sv vs query topK of
             Inl e \<Rightarrow> Inl e
           | Inr ranked \<Rightarrow> Inr (map (result_of vs) ranked))"

text \<open>
  For stating the properties of \<open>search\<close>: the condition that every score of a query
  against the stored embeddings is a number, that is, that no call of
  \<open>cosineSimilarity\<close> raises or returns NaN.
\<close>

fun is_number :: "error + jsnum \<Rightarrow> bool" where
  "is_number (Inr NaN) = False"
| "is_number (Inr x) = True"
| "is_number (Inl e) = False"

definition number_scores :: "vec option \<Rightarrow> vec option list \<Rightarrow> bool" where
  "number_scores q es = list_all (\<lambda>e. is_number (cosineSimilarity q e)) es"

text \<open>The ranking order: a higher score first, and the earlier index first among equals.\<close>

definition ranks_before :: "nat \<times> jsnum \<Rightarrow> nat \<times> jsnum \<Rightarrow> bool" where
  "ranks_before a b = (js_gt (snd a) (snd b) \<or> (snd a = snd b \<and> fst a < fst b))"


text \<open>A score that is a double other than NaN, and a pair of an index and such a score.\<close>

fun is_double :: "jsnum \<Rightarrow> bool" where
  "is_double (Fin r) = on_grid r"
| "is_double NaN = False"
| "is_double x = True"

definition scored :: "nat \<times> jsnum \<Rightarrow> bool" where
  "scored p = is_double (snd p)"


section \<open>services/gemini.js\<close>

definition newline :: string where
  "newline = [CHR 0x0A]"

text \<open>A non-negative integer in a template literal: its decimal digits.\<close>

fun show_nat :: "nat \<Rightarrow> string" where
  "show_nat n =
     (if n < 10 then [''0123456789'' ! n]
      else show_nat (n div 10) @ [''0123456789'' ! (n mod 10)])"

declare show_nat.simps [simp del]

fun join :: "string \<Rightarrow> string list \<Rightarrow> string" where
  "join sep [] = []"
| "join sep [x] = x"
| "join sep (x # y # ys) = x @ sep @ join sep (y # ys)"

text \<open>\<^verbatim>\<open>${doc.text}\<close> in a template literal; \<^verbatim>\<open>undefined\<close> prints as its name.\<close>

fun template_text :: "string option \<Rightarrow> string" where
  "template_text None = ''undefined''"
| "template_text (Some s) = s"

definition contextText :: "search_result list \<Rightarrow> string" where
  "contextText context =
     join (newline @ newline)
       (map (\<lambda>(idx, doc). ''[Source '' @ show_nat (idx + 1) @ '']: '' @ template_text (r_text doc))
          (enumerate 0 context))"

definition systemPrompt :: "search_result list \<Rightarrow> string" where
  \<open>systemPrompt context =
     ''You are a helpful news assistant chatbot. Your role is to answer questions about recent news articles based on the provided context.''
     @ newline @ newline
     @ ''IMPORTANT GUIDELINES:'' @ newline
     @ ''1. Only answer based on the provided news context'' @ newline
     @ ''2. If the context doesn't contain relevant information, say so politely'' @ newline
     @ ''3. Cite sources when possible (e.g., "According to Source 1...")'' @ newline
     @ ''4. Keep responses concise but informative'' @ newline
     @ ''5. If asked about topics not in the news context, explain that you can only answer questions about the available news articles'' @ newline
     @ ''6. Be conversational and helpful'' @ newline @ newline
     @ ''NEWS CONTEXT:'' @ newline
     @ contextText context\<close>

text \<open>
  The request of both \<open>generateResponse\<close> and \<open>streamResponse\<close>: the system prompt, the
  model's acknowledgement, the last ten turns of the history, and the query.
\<close>

definition build_contents ::
  "string \<Rightarrow> search_result list \<Rightarrow> (jsval option \<times> jsval option) list \<Rightarrow> content list" where
  "build_contents query context chatHistory =
     [(''user'', Some (JStr (systemPrompt context))),
      (''model'', Some (JStr ''I understand. I'm ready to answer questions about the news articles you've provided. How can I help you?''))]
     @ map (\<lambda>(role, content). (if role = Some (JStr ''user'') then ''user'' else ''model'', content))
         (js_slice chatHistory (- 10) (int (length chatHistory)))
     @ [(''user'', Some (JStr query))]"

definition generateResponse ::
  "services \<Rightarrow> string \<Rightarrow> search_result list \<Rightarrow> (jsval option \<times> jsval option) list \<Rightarrow> error + string" where
  "generateResponse sv query context chatHistory =
     (case generateContent sv (build_contents query context chatHistory) of
        Inr answer \<Rightarrow> Inr answer
      | Inl e \<Rightarrow> Inl (Error ''Failed to generate response from Gemini API''))"

text \<open>The \<^verbatim>\<open>status\<close> property of a thrown value.\<close>

fun status_of :: "error \<Rightarrow> int option" where
  "status_of (ApiError s) = s"
| "status_of e = None"

text \<open>
  The rate-limit answer of \<open>streamResponse\<close>: the first 300 characters of the first
  three passages. \<^verbatim>\<open>doc.text.substring\<close> raises a TypeError on a text that is
  \<^verbatim>\<open>undefined\<close>.
\<close>

fun source_lines :: "nat \<Rightarrow> search_result list \<Rightarrow> error + string list" where
  "source_lines i [] = Inr []"
| "source_lines i (doc # docs) =
     (case r_text doc of
        None \<Rightarrow> Inl TypeError
      | Some t \<Rightarrow>
          (case source_lines (Suc i) docs of
             Inl e \<Rightarrow> Inl e
           | Inr ls \<Rightarrow> Inr ((''**Source '' @ show_nat (i + 1) @ ''**: '' @ take 300 t @ ''...'') # ls)))"

definition fallbackResponse :: "search_result list \<Rightarrow> error + string" where
  "fallbackResponse context =
     (case source_lines 0 (js_slice context 0 3) of
        Inl e \<Rightarrow> Inl e
      | Inr ls \<Rightarrow>
          Inr (''I apologize, but the AI service is currently experiencing high demand. Here's what I found in the news:''
               @ newline @ newline @ join (newline @ newline) ls @ newline @ newline
               @ ''Please try again in a few moments for a more detailed response.''))"

text \<open>
  \<open>streamResponse\<close> returns its result and the texts it has passed to \<^verbatim>\<open>onChunk\<close>, in
  order; \<open>onChunk\<close> tells whether the caller supplied the callback. The chunks that
  arrived before an error were already passed on when the \<^verbatim>\<open>catch\<close> block runs.
\<close>

definition streamResponse ::
  "services \<Rightarrow> string \<Rightarrow> search_result list \<Rightarrow> (jsval option \<times> jsval option) list \<Rightarrow> bool
     \<Rightarrow> (error + string) \<times> string list" where
  "streamResponse sv query context chatHistory onChunk =
     (case generateContentStream sv (build_contents query context chatHistory) of
        (chunks, None) \<Rightarrow> (Inr (concat chunks), if onChunk then chunks else [])
      | (chunks, Some err) \<Rightarrow>
          (let delivered = (if onChunk then chunks else [])
           in if status_of err = Some 429
              then (case fallbackResponse context of
                      Inl e \<Rightarrow> (Inl e, delivered)
                    | Inr fallback \<Rightarrow> (Inr fallback, delivered @ (if onChunk then [fallback] else [])))
              else (Inl (Error ''Failed to stream response from Gemini API''), delivered)))"

section \<open>services/rag.js\<close>

text \<open>
  The state the pipeline works on: the key/value store behind the session service, the
  vector store, the disk, and the flag of the RAG service.
\<close>

record world =
  kv :: InMemoryStore
  vectorStore :: VectorStore
  storage :: disk
  isInitialized :: bool

definition RAGService_initialize :: "world \<Rightarrow> world" where
  "RAGService_initialize w =
     w\<lparr>vectorStore := VectorStore_initialize (vectorStore w) (storage w), isInitialized := True\<rparr>"

text \<open>\<^verbatim>\<open>if (!this.isInitialized) { await this.initialize(); }\<close>\<close>

definition ensure_initialized :: "world \<Rightarrow> world" where
  "ensure_initialized w = (if \<not> isInitialized w then RAGService_initialize w else w)"

record source =
  src_text :: string
  src_score :: string
  src_metadata :: "jsobj option"

record response =
  answer :: string
  sources :: "source list"

definition noDocsResponse :: string where
  "noDocsResponse = ''I don't have any news articles to search through yet. Please make sure the news corpus has been ingested.''"

text \<open>\<^verbatim>\<open>relevantDocs.map(doc => ({text: doc.text.substring(0, 200) + '...', ...}))\<close>.\<close>

fun make_sources :: "services \<Rightarrow> search_result list \<Rightarrow> error + source list" where
  "make_sources sv [] = Inr []"
| "make_sources sv (doc # docs) =
     (case r_text doc of
        None \<Rightarrow> Inl TypeError
      | Some t \<Rightarrow>
          (case make_sources sv docs of
             Inl e \<Rightarrow> Inl e
           | Inr ss \<Rightarrow>
               Inr (\<lparr>src_text = take 200 t @ ''...'', src_score = toFixed4 sv (r_score doc),
                     src_metadata = r_metadata doc\<rparr> # ss)))"

definition role_content :: "jsobj \<Rightarrow> jsval option \<times> jsval option" where
  "role_content m = (map_of m ''role'', map_of m ''content'')"

text \<open>
  The part of both pipelines after the session check and the retrieval, when no passage
  was found: the user turn and the canned answer are stored.
\<close>

definition store_turns ::
  "config \<Rightarrow> InMemoryStore \<Rightarrow> clock \<Rightarrow> string \<Rightarrow> string \<Rightarrow> string \<Rightarrow> string \<Rightarrow> string
     \<Rightarrow> (error + unit) \<times> InMemoryStore" where
  "store_turns cfg st clk uuid1 uuid2 sessionId query reply =
     (case addMessage cfg st clk uuid1 sessionId ''user'' query of
        (Inl e, st1) \<Rightarrow> (Inl e, st1)
      | (Inr m1, st1) \<Rightarrow>
          (case addMessage cfg st1 clk uuid2 sessionId ''assistant'' reply of
             (Inl e, st2) \<Rightarrow> (Inl e, st2)
           | (Inr m2, st2) \<Rightarrow> (Inr (), st2)))"

text \<open>
  \<open>uuid1\<close> and \<open>uuid2\<close> are the identifiers that \<^verbatim>\<open>uuidv4()\<close> gives the user turn and
  the assistant turn.
\<close>

definition processQuery ::
  "config \<Rightarrow> services \<Rightarrow> world \<Rightarrow> clock \<Rightarrow> string \<Rightarrow> string \<Rightarrow> string \<Rightarrow> string
     \<Rightarrow> (error + response) \<times> world" where
  "processQuery cfg sv w0 clk uuid1 uuid2 sessionId query =
     (let w = ensure_initialized w0
      in case validateSession cfg (kv w) clk sessionId of
           (False, st1) \<Rightarrow> (Inl (Error ''Invalid or expired session''), w\<lparr>kv := st1\<rparr>)
         | (True, st1) \<Rightarrow>
             (case getHistory st1 clk sessionId 10 of
                (Inl e, st2) \<Rightarrow> (Inl e, w\<lparr>kv := st2\<rparr>)
              | (Inr history, st2) \<Rightarrow>
                  (case search cfg sv (vectorStore w) query rag_topK of
                     Inl e \<Rightarrow> (Inl e, w\<lparr>kv := st2\<rparr>)
                   | Inr relevantDocs \<Rightarrow>
                       if length relevantDocs = 0
                       then (case store_turns cfg st2 clk uuid1 uuid2 sessionId query noDocsResponse of
                               (Inl e, st3) \<Rightarrow> (Inl e, w\<lparr>kv := st3\<rparr>)
                             | (Inr u, st3) \<Rightarrow>
                                 (Inr \<lparr>answer = noDocsResponse, sources = []\<rparr>, w\<lparr>kv := st3\<rparr>))
                       else (case addMessage cfg st2 clk uuid1 sessionId ''user'' query of
                               (Inl e, st3) \<Rightarrow> (Inl e, w\<lparr>kv := st3\<rparr>)
                             | (Inr m1, st3) \<Rightarrow>
                                 (case generateResponse sv query relevantDocs (map role_content history) of
                                    Inl e \<Rightarrow> (Inl e, w\<lparr>kv := st3\<rparr>)
                                  | Inr reply \<Rightarrow>
                                      (case addMessage cfg st3 clk uuid2 sessionId ''assistant'' reply of
                                         (Inl e, st4) \<Rightarrow> (Inl e, w\<lparr>kv := st4\<rparr>)
                                       | (Inr m2, st4) \<Rightarrow>
                                           (case make_sources sv relevantDocs of
                                              Inl e \<Rightarrow> (Inl e, w\<lparr>kv := st4\<rparr>)
                                            | Inr ss \<Rightarrow>
                                                (Inr \<lparr>answer = reply, sources = ss\<rparr>,
                                                 w\<lparr>kv := st4\<rparr>))))))))"

text \<open>
  \<open>processQueryStream\<close> returns, with its result and the new state, the texts passed
  to the caller's \<^verbatim>\<open>onChunk\<close>, in order. Without a callback the unguarded call
  \<^verbatim>\<open>onChunk(noDocsResponse)\<close> raises a TypeError.
\<close>

definition processQueryStream ::
  "config \<Rightarrow> services \<Rightarrow> world \<Rightarrow> clock \<Rightarrow> string \<Rightarrow> string \<Rightarrow> string \<Rightarrow> string \<Rightarrow> bool
     \<Rightarrow> (error + response) \<times> world \<times> string list" where
  "processQueryStream cfg sv w0 clk uuid1 uuid2 sessionId query onChunk =
     (let w = ensure_initialized w0
      in case validateSession cfg (kv w) clk sessionId of
           (False, st1) \<Rightarrow> (Inl (Error ''Invalid or expired session''), w\<lparr>kv := st1\<rparr>, [])
         | (True, st1) \<Rightarrow>
             (case getHistory st1 clk sessionId 10 of
                (Inl e, st2) \<Rightarrow> (Inl e, w\<lparr>kv := st2\<rparr>, [])
              | (Inr history, st2) \<Rightarrow>
                  (case search cfg sv (vectorStore w) query rag_topK of
                     Inl e \<Rightarrow> (Inl e, w\<lparr>kv := st2\<rparr>, [])
                   | Inr relevantDocs \<Rightarrow>
                       if length relevantDocs = 0
                       then (case store_turns cfg st2 clk uuid1 uuid2 sessionId query noDocsResponse of
                               (Inl e, st3) \<Rightarrow> (Inl e, w\<lparr>kv := st3\<rparr>, [])
                             | (Inr u, st3) \<Rightarrow>
                                 if onChunk
                                 then (Inr \<lparr>answer = noDocsResponse, sources = []\<rparr>, w\<lparr>kv := st3\<rparr>,
                                       [noDocsResponse])
                                 else (Inl TypeError, w\<lparr>kv := st3\<rparr>, []))
                       else (case addMessage cfg st2 clk uuid1 sessionId ''user'' query of
                               (Inl e, st3) \<Rightarrow> (Inl e, w\<lparr>kv := st3\<rparr>, [])
                             | (Inr m1, st3) \<Rightarrow>
                                 (case streamResponse sv query relevantDocs (map role_content history)
                                         onChunk of
                                    (Inl e, deltas) \<Rightarrow> (Inl e, w\<lparr>kv := st3\<rparr>, deltas)
                                  | (Inr reply, deltas) \<Rightarrow>
                                      (case addMessage cfg st3 clk uuid2 sessionId ''assistant'' reply of
                                         (Inl e, st4) \<Rightarrow> (Inl e, w\<lparr>kv := st4\<rparr>, deltas)
                                       | (Inr m2, st4) \<Rightarrow>
                                           (case make_sources sv relevantDocs of
                                              Inl e \<Rightarrow> (Inl e, w\<lparr>kv := st4\<rparr>, deltas)
                                            | Inr ss \<Rightarrow>
                                                (Inr \<lparr>answer = reply, sources = ss\<rparr>,
                                                 w\<lparr>kv := st4\<rparr>, deltas))))))))"

section \<open>Notions for stating the properties of the pipeline\<close>

text \<open>
  The history list of a session holds exactly the messages \<open>ms\<close>, oldest first (no list
  under the key when there are none); the message object that \<open>addMessage\<close> builds; and
  the messages that \<open>getHistory\<close> with limit 10 selects from \<open>ms\<close>.
\<close>

definition history_holds :: "InMemoryStore \<Rightarrow> string \<Rightarrow> jsobj list \<Rightarrow> bool" where
  "history_holds st sessionId ms =
     (case store st (historyPrefix @ sessionId) of
        None \<Rightarrow> ms = []
      | Some v \<Rightarrow> v = Arr (map JSON ms))"

definition message_of :: "clock \<Rightarrow> string \<Rightarrow> string \<Rightarrow> string \<Rightarrow> jsobj" where
  "message_of clk uuid role content =
     [(''id'', JStr uuid), (''role'', JStr role), (''content'', JStr content),
      (''timestamp'', JStr (toISOString clk))]"

definition last_ten :: "'a list \<Rightarrow> 'a list" where
  "last_ten ms = drop (length ms - 10) ms"

text \<open>
  The store right after a successful \<open>validateSession\<close> at the instant of \<open>clk\<close>: the
  session key holds the JSON text of an object and its expiry was refreshed, and the
  history list, if there is one, has the refreshed expiry too.
\<close>

definition validated :: "config \<Rightarrow> InMemoryStore \<Rightarrow> clock \<Rightarrow> string \<Rightarrow> jsobj list \<Rightarrow> bool" where
  "validated cfg st clk sessionId ms =
     (0 \<le> sessionTTL cfg
      \<and> (case store st (sessionPrefix @ sessionId) of
            Some (Str (JSON s)) \<Rightarrow> True
          | other \<Rightarrow> False)
      \<and> ttls st (sessionPrefix @ sessionId) = Some (Date_now clk + sessionTTL cfg * 1000)
      \<and> history_holds st sessionId ms
      \<and> (store st (historyPrefix @ sessionId) = None
           \<or> ttls st (historyPrefix @ sessionId) = Some (Date_now clk + sessionTTL cfg * 1000)))"

section \<open>An example environment\<close>

text \<open>
  A configuration without an embedding key, collaborators that answer, three documents,
  and the index and the state they give; the properties below are instantiated on them.
\<close>

definition example_config :: config where
  "example_config = \<lparr>sessionTTL = 86400, jinaApiKey = None\<rparr>"

definition example_services :: services where
  "example_services =
     \<lparr>jinaEmbed = (\<lambda>texts. Inl (ApiError (Some 503))),
      localVector = (\<lambda>t. case t of [] \<Rightarrow> [Fin 0, Fin 0]
                          | c # cs \<Rightarrow> if c = CHR ''w'' then [Fin 1, Fin 0] else [Fin 0, Fin 1]),
      generateContent = (\<lambda>contents. Inr ''Sunny tomorrow.''),
      generateContentStream = (\<lambda>contents. ([''Sunny '', ''tomorrow.''], None)),
      toFixed4 = (\<lambda>n. case n of Fin r \<Rightarrow> if r = 1 then ''1.0000'' else ''0.0000''
                       | PInf \<Rightarrow> ''Infinity'' | NInf \<Rightarrow> ''-Infinity'' | NaN \<Rightarrow> ''NaN'')\<rparr>"

definition example_docs :: "doc list" where
  "example_docs =
     [\<lparr>d_text = Some ''weather: sunny tomorrow'', d_metadata = Some [(''title'', JStr ''Forecast'')]\<rparr>,
      \<lparr>d_text = Some ''sports: cup final'', d_metadata = None\<rparr>,
      \<lparr>d_text = Some ''weather: rain on friday'', d_metadata = None\<rparr>]"

definition example_index :: VectorStore where
  "example_index =
     \<lparr>documents = [Some ''weather: sunny tomorrow'', Some ''sports: cup final'',
                   Some ''weather: rain on friday''],
      embeddings = [Some [Fin 1, Fin 0], Some [Fin 0, Fin 1], Some [Fin 1, Fin 0]],
      metadata = [[(''title'', JStr ''Forecast'')], [], []],
      isLoaded = True\<rparr>"

definition example_clock :: clock where
  "example_clock = \<lparr>Date_now = 1000, toISOString = ''2024-01-01T00:00:01.000Z''\<rparr>"

text \<open>A store with one session, \<open>''s1''\<close>, created at the instant of \<open>example_clock\<close>.\<close>

definition example_store :: InMemoryStore where
  "example_store = snd (createSession example_config newInMemoryStore example_clock ''s1'')"

definition example_world :: "VectorStore \<Rightarrow> world" where
  "example_world vs =
     \<lparr>kv = example_store, vectorStore = vs,
      storage = \<lparr>index_json = None, writable = True\<rparr>, isInitialized = True\<rparr>"

text \<open>
  Collaborators whose generation fails with the given status: the blocking call at once,
  the streaming call after the given chunks have arrived.
\<close>

definition failing_services :: "int option \<Rightarrow> string list \<Rightarrow> services" where
  "failing_services status chunks =
     example_services
       \<lparr>generateContent := (\<lambda>contents. Inl (ApiError status)),
        generateContentStream := (\<lambda>contents. (chunks, Some (ApiError status)))\<rparr>"

text \<open>What \<open>search\<close> finds in \<open>example_index\<close> for a query that starts with \<open>w\<close>.\<close>

definition example_results :: "search_result list" where
  "example_results =
     [\<lparr>r_text = Some ''weather: sunny tomorrow'', r_score = Fin 1,
        r_metadata = Some [(''title'', JStr ''Forecast'')]\<rparr>,
      \<lparr>r_text = Some ''weather: rain on friday'', r_score = Fin 1, r_metadata = Some []\<rparr>,
      \<lparr>r_text = Some ''sports: cup final'', r_score = Fin 0, r_metadata = Some []\<rparr>]"

text \<open>
  An index with embeddings of two dimensions: a configuration with an embedding key and an
  embedding service that answers for one batch, with vectors of its own dimension, and
  fails for the others, which then get the local vectors.
\<close>

definition mixed_config :: config where
  "mixed_config = \<lparr>sessionTTL = 86400, jinaApiKey = Some ''key''\<rparr>"

definition mixed_services :: services where
  "mixed_services =
     example_services
       \<lparr>jinaEmbed := (\<lambda>texts. if texts = [Some ''politics: vote'']
                              then Inr [Some [Fin 1]] else Inl (ApiError (Some 503)))\<rparr>"

definition mixed_index :: VectorStore where
  "mixed_index =
     \<lparr>documents = [Some ''sports: cup final'', Some ''politics: vote'',
                   Some ''weather: rain on friday''],
      embeddings = [Some [Fin 0, Fin 1], Some [Fin 1], Some [Fin 1, Fin 0]],
      metadata = [[], [], []],
      isLoaded = False\<rparr>"

section \<open>Properties of the in-memory store\<close>

lemma checkExpiry_live: "\<not> expired st now k \<Longrightarrow> checkExpiry st now k = st"
  by (auto simp: expired_def checkExpiry_def split: option.splits)

lemma checkExpiry_expired:
  "expired st now k \<Longrightarrow>
     store (checkExpiry st now k) k = None \<and> ttls (checkExpiry st now k) k = None"
  by (auto simp: expired_def checkExpiry_def split: option.splits)

lemma checkExpiry_other: "k' \<noteq> k \<Longrightarrow> store (checkExpiry st now k) k' = store st k'"
  by (simp add: checkExpiry_def split: option.splits)

text \<open>
  Lazy expiry on the read path: a key written by \<open>setex\<close> at \<open>t0\<close> with \<open>T\<close> seconds is
  absent for \<open>get\<close> and \<open>exists\<close> at every later instant past \<open>t0 + 1000 T\<close>.
\<close>

lemma get_after_expiry:
  assumes "t0 + T * 1000 \<noteq> 0" and "now > t0 + T * 1000"
  shows "fst (get (setex st t0 k T v) now k) = None"
  using assms by (simp add: get_def setex_def checkExpiry_def)

lemma exists_after_expiry:
  assumes "t0 + T * 1000 \<noteq> 0" and "now > t0 + T * 1000"
  shows "fst (exists (setex st t0 k T v) now k) = 0"
  using assms by (simp add: exists_def setex_def checkExpiry_def)

text \<open>
  C2. A key written with a TTL of 1 second at instant 0 has expired at instant 2000 ms.
  \<open>expire\<close> does not run \<open>checkExpiry\<close>: called at 2000 ms it finds the key still in the
  map, answers 1 and records a new expiry, and the \<open>get\<close> that follows returns the
  value that had expired.
\<close>

theorem expire_revives_expired_key:
  "expired (setex newInMemoryStore 0 ''k'' 1 (Str (Plain ''v''))) 2000 ''k'' \<and>
   fst (expire (setex newInMemoryStore 0 ''k'' 1 (Str (Plain ''v''))) 2000 ''k'' 10) = 1 \<and>
   fst (get (snd (expire (setex newInMemoryStore 0 ''k'' 1 (Str (Plain ''v''))) 2000 ''k'' 10))
          2001 ''k'')
     = Some (Str (Plain ''v''))"
  by (simp add: expire_def setex_def get_def checkExpiry_def newInMemoryStore_def expired_def)

text \<open>
  C10. When a key holds the empty string and has not expired, \<open>exists\<close> answers 1 while
  \<open>get\<close> answers \<^verbatim>\<open>null\<close>, also when \<open>get\<close> is called on the state \<open>exists\<close> leaves.
\<close>

theorem exists_get_disagree_on_empty_string:
  assumes "store st k = Some (Str (Plain []))" and "\<not> expired st now k"
  shows "fst (exists st now k) = 1 \<and> fst (get st now k) = None
     \<and> fst (get (snd (exists st now k)) now k) = None"
  using assms by (simp add: exists_def get_def checkExpiry_live)

theorem exists_get_disagree_on_empty_string_witness:
  "fst (exists (setex newInMemoryStore 0 ''k'' 10 (Str (Plain []))) 5 ''k'') = 1 \<and>
   fst (get (setex newInMemoryStore 0 ''k'' 10 (Str (Plain []))) 5 ''k'') = None"
  using exists_get_disagree_on_empty_string
          [of "setex newInMemoryStore 0 ''k'' 10 (Str (Plain []))" "''k''" 5]
  by (simp add: setex_def newInMemoryStore_def expired_def)

section \<open>Properties of the session service\<close>

lemma prefixes_differ: "sessionPrefix @ a \<noteq> historyPrefix @ b"
  by (simp add: sessionPrefix_def historyPrefix_def)

lemma parse_each_JSON: "parse_each (map JSON ms) = Inr ms"
  by (induction ms) auto

lemma map_of_obj_set: "map_of (obj_set k v ps) = (map_of ps)(k \<mapsto> v)"
  by (induction ps) (auto simp: fun_eq_iff)

lemma js_slice_last:
  assumes "0 < N"
  shows "js_slice xs (- N) (int (length xs)) = drop (length xs - min (nat N) (length xs)) xs"
  using assms
  by (auto simp: js_slice_def Let_def max_def min_def nat_diff_distrib nat_add_distrib
      intro: arg_cong [where f = "\<lambda>n. drop n xs"])

text \<open>A session is valid right after its creation.\<close>

lemma createSession_valid:
  assumes "0 \<le> sessionTTL cfg"
  shows "store (snd (createSession cfg st clk uuid)) (sessionPrefix @ uuid)
       = Some (Str (JSON (fst (createSession cfg st clk uuid))))
    \<and> \<not> expired (snd (createSession cfg st clk uuid)) (Date_now clk) (sessionPrefix @ uuid)
    \<and> fst (validateSession cfg (snd (createSession cfg st clk uuid)) clk uuid)"
  using assms
  by (simp add: createSession_def setex_def expired_def validateSession_def exists_def
      checkExpiry_def Let_def)

text \<open>
  For a positive limit \<open>N\<close>, \<open>getHistory\<close> returns the most recent \<open>min N k\<close> of the \<open>k\<close>
  stored messages, oldest first.
\<close>

lemma getHistory_recent:
  assumes "store st (historyPrefix @ sid) = Some (Arr (map JSON ms))"
    and "\<not> expired st (Date_now clk) (historyPrefix @ sid)"
    and "0 < N"
  shows "fst (getHistory st clk sid N) = Inr (drop (length ms - min (nat N) (length ms)) ms)"
proof -
  have "fst (getHistory st clk sid N)
      = parse_each (js_slice (map JSON ms) (- N) (int (length (map JSON ms))))"
    using assms by (simp add: getHistory_def lrange_def checkExpiry_live)
  also have "\<dots> = parse_each (map JSON (drop (length ms - min (nat N) (length ms)) ms))"
    using js_slice_last [OF assms(3), of "map JSON ms"] by (simp add: drop_map)
  finally show ?thesis by (simp add: parse_each_JSON)
qed

text \<open>
  C7. With limit 0 the start index \<^verbatim>\<open>-limit\<close> is 0, the whole list is sliced, and
  \<open>getHistory\<close> returns all three stored messages where the most recent \<open>min 0 3 = 0\<close>
  are none.
\<close>

theorem getHistory_limit_zero_returns_all:
  "fst (getHistory
         (snd (rpush newInMemoryStore (historyPrefix @ ''s'')
                [JSON [(''content'', JStr ''m1'')], JSON [(''content'', JStr ''m2'')],
                 JSON [(''content'', JStr ''m3'')]]))
         \<lparr>Date_now = 5, toISOString = ''t''\<rparr> ''s'' 0)
     = Inr [[(''content'', JStr ''m1'')], [(''content'', JStr ''m2'')], [(''content'', JStr ''m3'')]]"
  by (simp add: getHistory_def lrange_def rpush_def checkExpiry_def newInMemoryStore_def
      js_slice_def)

text \<open>
  C9. On an existing session \<open>clearHistory\<close> succeeds; afterwards, at every instant up
  to the refreshed expiry of the session, \<open>getHistory\<close> returns the empty sequence for
  every limit, \<open>getSession\<close> still finds the session, the session key exists, and the
  session object is the former one with \<open>messageCount\<close> set to 0 and every other
  property as it was.
\<close>

theorem clearHistory_resets_count_only:
  assumes sess: "fst (getSession st clk sid) = Inr (Some s)"
    and later: "Date_now clk' \<le> Date_now clk + sessionTTL cfg * 1000"
  shows "fst (clearHistory cfg st clk sid) = Inr ()
    \<and> fst (getHistory (snd (clearHistory cfg st clk sid)) clk' sid N) = Inr []
    \<and> fst (getSession (snd (clearHistory cfg st clk sid)) clk' sid)
        = Inr (Some (obj_set ''messageCount'' (JNum 0) s))
    \<and> fst (exists (snd (clearHistory cfg st clk sid)) (Date_now clk') (sessionPrefix @ sid)) = 1
    \<and> map_of (obj_set ''messageCount'' (JNum 0) s) = (map_of s)(''messageCount'' \<mapsto> JNum 0)
    \<and> map fst (obj_set ''messageCount'' (JNum 0) s)
        = (if ''messageCount'' \<in> fst ` set s then map fst s else map fst s @ [''messageCount''])"
proof -
  let ?st1 = "snd (del st (historyPrefix @ sid))"
  have g1: "fst (getSession ?st1 clk sid) = Inr (Some s)"
    using sess prefixes_differ [of sid sid]
    by (auto simp: getSession_def get_def del_def checkExpiry_def Let_def
        split: option.splits prod.splits sum.splits if_splits)
  obtain st2 where st2: "getSession ?st1 clk sid = (Inr (Some s), st2)"
    using g1 by (cases "getSession ?st1 clk sid") auto
  have h2: "store st2 (historyPrefix @ sid) = None"
    using st2 prefixes_differ [of sid sid]
    by (auto simp: getSession_def get_def del_def checkExpiry_def Let_def
        split: option.splits prod.splits sum.splits if_splits)
  have ch: "clearHistory cfg st clk sid
      = (Inr (), setex st2 (Date_now clk) (sessionPrefix @ sid) (sessionTTL cfg)
                   (Str (JSON (obj_set ''messageCount'' (JNum 0) s))))"
    using st2 by (simp add: clearHistory_def)
  have keys: "map fst (obj_set k v ps) = (if k \<in> fst ` set ps then map fst ps else map fst ps @ [k])"
    for k :: string and v ps
    by (induction ps) (force+)
  show ?thesis
    using h2 later prefixes_differ [of sid sid]
    by (simp add: ch map_of_obj_set keys getHistory_def lrange_def getSession_def get_def
        exists_def setex_def checkExpiry_def split: option.splits)
qed

theorem clearHistory_resets_count_only_witness:
  "fst (getSession
         (snd (addMessage \<lparr>sessionTTL = 86400, jinaApiKey = None\<rparr>
                (snd (createSession \<lparr>sessionTTL = 86400, jinaApiKey = None\<rparr> newInMemoryStore
                       \<lparr>Date_now = 1000, toISOString = ''t0''\<rparr> ''u''))
                \<lparr>Date_now = 2000, toISOString = ''t1''\<rparr> ''m1'' ''u'' ''user'' ''hello''))
         \<lparr>Date_now = 3000, toISOString = ''t2''\<rparr> ''u'')
     = Inr (Some [(''id'', JStr ''u''), (''createdAt'', JStr ''t0''), (''messageCount'', JNum 1)])
   \<and> fst (getSession
         (snd (clearHistory \<lparr>sessionTTL = 86400, jinaApiKey = None\<rparr>
           (snd (addMessage \<lparr>sessionTTL = 86400, jinaApiKey = None\<rparr>
                (snd (createSession \<lparr>sessionTTL = 86400, jinaApiKey = None\<rparr> newInMemoryStore
                       \<lparr>Date_now = 1000, toISOString = ''t0''\<rparr> ''u''))
                \<lparr>Date_now = 2000, toISOString = ''t1''\<rparr> ''m1'' ''u'' ''user'' ''hello''))
           \<lparr>Date_now = 3000, toISOString = ''t2''\<rparr> ''u''))
         \<lparr>Date_now = 4000, toISOString = ''t3''\<rparr> ''u'')
     = Inr (Some [(''id'', JStr ''u''), (''createdAt'', JStr ''t0''), (''messageCount'', JNum 0)])
   \<and> fst (getHistory
         (snd (clearHistory \<lparr>sessionTTL = 86400, jinaApiKey = None\<rparr>
           (snd (addMessage \<lparr>sessionTTL = 86400, jinaApiKey = None\<rparr>
                (snd (createSession \<lparr>sessionTTL = 86400, jinaApiKey = None\<rparr> newInMemoryStore
                       \<lparr>Date_now = 1000, toISOString = ''t0''\<rparr> ''u''))
                \<lparr>Date_now = 2000, toISOString = ''t1''\<rparr> ''m1'' ''u'' ''user'' ''hello''))
           \<lparr>Date_now = 3000, toISOString = ''t2''\<rparr> ''u''))
         \<lparr>Date_now = 4000, toISOString = ''t3''\<rparr> ''u'' 100)
     = Inr []"
proof -
  let ?cfg = "\<lparr>sessionTTL = 86400, jinaApiKey = None\<rparr>"
  let ?st = "snd (addMessage ?cfg
                (snd (createSession ?cfg newInMemoryStore
                       \<lparr>Date_now = 1000, toISOString = ''t0''\<rparr> ''u''))
                \<lparr>Date_now = 2000, toISOString = ''t1''\<rparr> ''m1'' ''u'' ''user'' ''hello'')"
  have sess: "fst (getSession ?st \<lparr>Date_now = 3000, toISOString = ''t2''\<rparr> ''u'')
      = Inr (Some [(''id'', JStr ''u''), (''createdAt'', JStr ''t0''), (''messageCount'', JNum 1)])"
    by (simp add: getSession_def get_def checkExpiry_def addMessage_def createSession_def
        rpush_def setex_def expire_def newInMemoryStore_def sessionPrefix_def historyPrefix_def
        Let_def)
  have later: "Date_now \<lparr>Date_now = 4000, toISOString = ''t3''\<rparr>
      \<le> Date_now \<lparr>Date_now = 3000, toISOString = ''t2''\<rparr> + sessionTTL ?cfg * 1000"
    by simp
  show ?thesis
    using sess clearHistory_resets_count_only [OF sess later, of 100] by simp
qed

section \<open>Properties of the numbers\<close>

lemma MAX_VALUE_pos: "1 \<le> MAX_VALUE"
  by (simp add: MAX_VALUE_def)


lemma MIN_VALUE_gt_zero: "0 < MIN_VALUE"
  by (simp only: MIN_VALUE_def powr_gt_zero)

lemma overflow_zero: "overflow 0 = Fin 0"
  using MAX_VALUE_pos by (simp add: overflow_def)

lemma overflow_cases:
  "overflow r = Fin r \<or> (overflow r = PInf \<and> 0 < r) \<or> (overflow r = NInf \<and> r < 0)"
  using MAX_VALUE_pos by (auto simp: overflow_def)

lemma round64_zero: "round64 0 = 0"
  by (simp add: round64_def)

lemma round_half_even_of_int: "round_half_even (of_int m) = m"
  by (simp add: round_half_even_def)


lemma round_half_even_nonpos: "q \<le> 0 \<Longrightarrow> round_half_even q \<le> 0"
proof -
  assume q: "q \<le> 0"
  show ?thesis
  proof (cases "q = 0")
    case True
    then show ?thesis by (simp add: round_half_even_def)
  next
    case False
    then have "q < 0" using q by simp
    then have "\<lfloor>q\<rfloor> \<le> - 1" by (simp add: floor_le_iff)
    then show ?thesis by (auto simp: round_half_even_def Let_def)
  qed
qed

lemma round_half_even_pos: "1 \<le> q \<Longrightarrow> 1 \<le> round_half_even q"
proof -
  assume "1 \<le> q"
  then have "1 \<le> \<lfloor>q\<rfloor>" by (simp add: le_floor_iff)
  then show ?thesis by (auto simp: round_half_even_def Let_def)
qed

lemma exponent_ge: "- 1074 \<le> exponent r"
  by (simp add: exponent_def)


lemma round64_nonpos: "r \<le> 0 \<Longrightarrow> round64 r \<le> 0"
proof -
  assume "r \<le> 0"
  then have "r / 2 powr of_int (exponent r) \<le> 0" by (simp add: divide_nonpos_pos)
  then have "round_half_even (r / 2 powr of_int (exponent r)) \<le> 0"
    by (rule round_half_even_nonpos)
  then have "of_int (round_half_even (r / 2 powr of_int (exponent r))) * 2 powr of_int (exponent r) \<le> (0::real)"
    by (simp add: mult_nonpos_nonneg)
  then show ?thesis by (simp add: round64_def)
qed

lemma powr_exponent_le:
  assumes "MIN_VALUE \<le> r"
  shows "2 powr of_int (exponent r) \<le> r"
proof -
  have pos: "0 < r" using assms MIN_VALUE_gt_zero by linarith
  show ?thesis
  proof (cases "\<lfloor>log 2 \<bar>r\<bar>\<rfloor> - 52 \<le> - 1074")
    case True
    then have "exponent r = - 1074" by (simp add: exponent_def)
    then show ?thesis using assms by (simp add: MIN_VALUE_def)
  next
    case False
    then have e: "exponent r = \<lfloor>log 2 r\<rfloor> - 52" using pos by (simp add: exponent_def)
    have "real_of_int \<lfloor>log 2 r\<rfloor> \<le> log 2 r" by (rule of_int_floor_le)
    then have "real_of_int (\<lfloor>log 2 r\<rfloor> - 52) \<le> log 2 r" by (simp only: of_int_diff of_int_numeral)
    then have "2 powr of_int (\<lfloor>log 2 r\<rfloor> - 52) \<le> 2 powr log 2 r" by simp
    then show ?thesis using pos by (simp add: e)
  qed
qed

lemma round64_pos:
  assumes "MIN_VALUE \<le> r"
  shows "0 < round64 r"
proof -
  have pos: "0 < r" using assms MIN_VALUE_gt_zero by linarith
  have "1 \<le> r / 2 powr of_int (exponent r)"
    using powr_exponent_le [OF assms] by (simp add: le_divide_eq)
  then have "1 \<le> round_half_even (r / 2 powr of_int (exponent r))" by (rule round_half_even_pos)
  then have "0 < real_of_int (round_half_even (r / 2 powr of_int (exponent r))) * 2 powr of_int (exponent r)"
    by (simp add: mult_pos_pos)
  then show ?thesis using pos by (simp add: round64_def)
qed

lemma exponent_le:
  assumes "r = of_int m * 2 powr of_int k" and "m \<noteq> 0" and "\<bar>m\<bar> < 2 ^ 53" and "- 1074 \<le> k"
  shows "exponent r \<le> k"
proof -
  have m: "0 < \<bar>real_of_int m\<bar>" using assms(2) by simp
  have abs: "\<bar>r\<bar> = \<bar>real_of_int m\<bar> * 2 powr of_int k" by (simp add: assms(1) abs_mult)
  have "\<bar>real_of_int m\<bar> < 2 ^ 53"
    using assms(3) by (metis of_int_abs of_int_less_numeral_power_cancel_iff)
  then have "\<bar>real_of_int m\<bar> < 2 powr 53" by simp
  then have "\<bar>r\<bar> < 2 powr 53 * 2 powr of_int k" by (simp add: abs)
  then have lt: "\<bar>r\<bar> < 2 powr (53 + of_int k)" by (simp add: powr_add)
  have pos: "0 < \<bar>r\<bar>" using m by (simp add: abs)
  have "log 2 \<bar>r\<bar> < 53 + of_int k"
    using lt pos by (simp add: log_less_iff)
  then have "log 2 \<bar>r\<bar> < of_int (53 + k)" by simp
  then have "\<lfloor>log 2 \<bar>r\<bar>\<rfloor> < 53 + k" by (simp only: floor_less_iff)
  then show ?thesis using assms(4) by (simp add: exponent_def)
qed

text \<open>A number with at most 53 significant bits and an exponent within range is a double.\<close>

lemma round64_exact:
  assumes "r = of_int m * 2 powr of_int k" and "\<bar>m\<bar> < 2 ^ 53" and "- 1074 \<le> k"
  shows "round64 r = r"
proof (cases "m = 0")
  case True
  then show ?thesis by (simp add: assms(1) round64_def)
next
  case False
  define e where "e = exponent r"
  have le: "e \<le> k" unfolding e_def using assms(1) False assms(2,3) by (rule exponent_le)
  define n where "n = nat (k - e)"
  have k: "k = e + int n" using le by (simp add: n_def)
  have p: "2 powr real_of_int k = 2 ^ n * 2 powr real_of_int e"
    by (simp add: k powr_add powr_realpow)
  have "r / 2 powr of_int e = real_of_int (m * 2 ^ n)"
    by (simp add: assms(1) p)
  then have "round_half_even (r / 2 powr of_int e) = m * 2 ^ n"
    by (simp only: round_half_even_of_int)
  then have "round64 r = (if r = 0 then 0 else real_of_int (m * 2 ^ n) * 2 powr of_int e)"
    by (simp add: round64_def e_def)
  also have "\<dots> = r" by (simp add: assms(1) p)
  finally show ?thesis .
qed

lemma round64_int: "r \<in> \<int> \<Longrightarrow> \<bar>r\<bar> < 2 ^ 53 \<Longrightarrow> round64 r = r"
proof -
  assume "r \<in> \<int>" and b: "\<bar>r\<bar> < 2 ^ 53"
  then obtain m where m: "r = of_int m" by (auto elim: Ints_cases)
  have "\<bar>real_of_int m\<bar> < 2 ^ 53" using b by (simp add: m)
  then have "\<bar>m\<bar> < 2 ^ 53" by (metis of_int_abs of_int_less_numeral_power_cancel_iff)
  then show ?thesis using round64_exact [of r m 0] by (simp add: m)
qed


lemma powr_exponent_grid:
  assumes "- 1074 \<le> e"
  shows "2 powr real_of_int e = 2 ^ nat (e + 1074) * MIN_VALUE"
proof -
  have "real_of_int e = real (nat (e + 1074)) + (- 1074)" using assms by simp
  then have "2 powr real_of_int e = 2 powr (real (nat (e + 1074)) + (- 1074))" by (simp only:)
  also have "\<dots> = 2 powr real (nat (e + 1074)) * 2 powr (- 1074)" by (rule powr_add)
  also have "\<dots> = 2 ^ nat (e + 1074) * MIN_VALUE" by (simp only: MIN_VALUE_def powr_realpow zero_less_numeral)
  finally show ?thesis .
qed

lemma on_grid_round64: "on_grid (round64 r)"
proof (cases "r = 0")
  case True
  then show ?thesis by (simp add: round64_def on_grid_def)
next
  case False
  define e where "e = exponent r"
  define n where "n = nat (e + 1074)"
  have "- 1074 \<le> e" by (simp add: e_def exponent_ge)
  then have p: "2 powr real_of_int e = 2 ^ n * MIN_VALUE" unfolding n_def by (rule powr_exponent_grid)
  have "round64 r / MIN_VALUE
      = real_of_int (round_half_even (r / 2 powr of_int e)) * 2 powr real_of_int e / MIN_VALUE"
    using False by (simp add: round64_def e_def)
  also have "\<dots> = real_of_int (round_half_even (r / 2 powr of_int e) * 2 ^ n)"
    using MIN_VALUE_gt_zero by (simp add: p)
  finally show ?thesis unfolding on_grid_def by (simp only: Ints_of_int)
qed

lemma on_grid_zero: "on_grid 0"
  by (simp add: on_grid_def)

lemma on_grid_gap:
  assumes "on_grid x" and "on_grid y" and "x < y"
  shows "MIN_VALUE \<le> y - x"
proof -
  obtain i where i: "x / MIN_VALUE = of_int i" using assms(1) by (auto simp: on_grid_def elim: Ints_cases)
  obtain j where j: "y / MIN_VALUE = of_int j" using assms(2) by (auto simp: on_grid_def elim: Ints_cases)
  have "x / MIN_VALUE < y / MIN_VALUE" using assms(3) MIN_VALUE_gt_zero by (simp add: divide_strict_right_mono)
  then have "i < j" by (simp only: i j of_int_less_iff)
  then have "1 \<le> j - i" by simp
  then have "1 \<le> real_of_int (j - i)" by (simp only: of_int_1_le_iff)
  then have "1 \<le> real_of_int j - real_of_int i" by simp
  then have "1 \<le> y / MIN_VALUE - x / MIN_VALUE" by (simp only: i j)
  then have "1 \<le> (y - x) / MIN_VALUE" by (simp only: diff_divide_distrib)
  then show ?thesis using MIN_VALUE_gt_zero by (simp add: le_divide_eq)
qed

text \<open>The difference of two distinct doubles does not round to 0.\<close>

lemma round64_gap:
  assumes "on_grid x" and "on_grid y" and "x < y"
  shows "0 < round64 (y - x)"
  using on_grid_gap [OF assms] by (rule round64_pos)

text \<open>Underflow: a positive number below half of \<^verbatim>\<open>Number.MIN_VALUE\<close> rounds to 0.\<close>

lemma round64_underflow:
  assumes "0 < r" and "r < MIN_VALUE / 2"
  shows "round64 r = 0"
proof -
  have lt: "r < MIN_VALUE" using assms MIN_VALUE_gt_zero by linarith
  have "log 2 r < log 2 MIN_VALUE" using assms(1) lt by simp
  also have "log 2 MIN_VALUE = - 1074" by (simp add: MIN_VALUE_def)
  finally have "log 2 r < real_of_int (- 1074)" by simp
  then have "\<lfloor>log 2 r\<rfloor> < - 1074" by (simp only: floor_less_iff)
  then have "\<lfloor>log 2 r\<rfloor> - 52 \<le> - 1074" by linarith
  then have "max (\<lfloor>log 2 r\<rfloor> - 52) (- 1074) = - 1074" by (rule max_absorb2)
  then have e: "exponent r = - 1074" using assms(1) by (simp only: exponent_def abs_of_pos)
  define q where "q = r / MIN_VALUE"
  have q: "0 < q" "q < 1 / 2" using assms MIN_VALUE_gt_zero by (simp_all add: q_def divide_simps)
  then have "\<lfloor>q\<rfloor> = 0" by (simp add: floor_eq_iff)
  then have "round_half_even q = 0" using q by (simp add: round_half_even_def)
  then show ?thesis using assms(1) by (simp add: round64_def e q_def MIN_VALUE_def)
qed

lemma MIN_VALUE_power: "MIN_VALUE = 1 / 2 ^ 1074"
proof -
  have "MIN_VALUE = 2 powr (- real 1074)" by (simp add: MIN_VALUE_def)
  also have "\<dots> = 1 / 2 powr real 1074" by (simp only: powr_minus_divide)
  also have "\<dots> = 1 / 2 ^ 1074" by (simp only: powr_realpow zero_less_numeral)
  finally show ?thesis .
qed

lemma tiny_square: "round64 (1 / 2 ^ 600 * (1 / 2 ^ 600)) = 0"
proof (rule round64_underflow)
  show "(0::real) < 1 / 2 ^ 600 * (1 / 2 ^ 600)" by simp
  have "(1::real) / 2 ^ 600 * (1 / 2 ^ 600) = 1 / 2 ^ 1200" by (simp flip: power_add)
  also have "\<dots> < 1 / 2 ^ 1075"
  proof (rule divide_strict_left_mono)
    show "(2::real) ^ 1075 < 2 ^ 1200" by (rule power_strict_increasing) simp_all
  qed simp_all
  also have "\<dots> = MIN_VALUE / 2" by (simp add: MIN_VALUE_power)
  finally show "(1::real) / 2 ^ 600 * (1 / 2 ^ 600) < MIN_VALUE / 2" .
qed


lemma round64_small [simp]:
  "round64 1 = 1" "round64 5 = 5" "round64 9 = 9" "round64 16 = 16" "round64 25 = 25"
  by (simp_all add: round64_int)

lemma overflow_small: "\<bar>r\<bar> \<le> 2 ^ 53 \<Longrightarrow> overflow r = Fin r"
proof -
  assume "\<bar>r\<bar> \<le> 2 ^ 53"
  moreover have "(2 ^ 53 :: real) \<le> MAX_VALUE" by (simp add: MAX_VALUE_def)
  ultimately show ?thesis by (auto simp: overflow_def)
qed

text \<open>Rounding a number that is within half a unit of a double of 53 bits.\<close>

lemma round_half_even_near:
  assumes "\<bar>q - of_int m\<bar> < 1 / 2"
  shows "round_half_even q = m"
proof (cases "of_int m \<le> q")
  case True
  then have "\<lfloor>q\<rfloor> = m" using assms by (simp add: floor_eq_iff abs_if split: if_splits)
  then show ?thesis using assms True by (simp add: round_half_even_def abs_if split: if_splits)
next
  case False
  then have f: "\<lfloor>q\<rfloor> = m - 1" using assms by (simp add: floor_eq_iff abs_if split: if_splits)
  have "q - of_int (m - 1) > 1 / 2" using assms False by (simp add: abs_if split: if_splits)
  then show ?thesis by (simp add: round_half_even_def f)
qed

lemma round64_near:
  assumes e: "- 1074 \<le> e" and m: "2 ^ 52 < m" "m < 2 ^ 53"
    and near: "\<bar>r / 2 powr of_int e - of_int m\<bar> < 1 / 2"
  shows "round64 r = of_int m * 2 powr of_int e"
proof -
  define q where "q = r / 2 powr of_int e"
  have m': "(2::real) ^ 52 + 1 \<le> of_int m" "real_of_int m \<le> 2 ^ 53 - 1"
  proof -
    have "2 ^ 52 + 1 \<le> m" "m \<le> 2 ^ 53 - 1" using m by simp_all
    then have "real_of_int (2 ^ 52 + 1) \<le> of_int m" "real_of_int m \<le> of_int (2 ^ 53 - 1)"
      by (simp_all only: of_int_le_iff)
    then show "(2::real) ^ 52 + 1 \<le> of_int m" "real_of_int m \<le> 2 ^ 53 - 1" by simp_all
  qed
  have b: "real_of_int m - 1 / 2 < q \<and> q < real_of_int m + 1 / 2"
    using near by (simp only: q_def abs_diff_less_iff)
  have q: "2 ^ 52 \<le> q" "q < 2 ^ 53" using b m' by linarith+
  have qpos: "0 < q" using q(1) by (smt (verit) zero_less_power)
  have r: "r = q * 2 powr of_int e" by (simp add: q_def)
  then have rpos: "0 < r" using qpos by simp
  have "log 2 r = log 2 q + of_int e" using qpos by (simp add: r log_mult)
  moreover have "52 \<le> log 2 q" using q(1) qpos by (simp add: le_log_iff)
  moreover have "log 2 q < 53" using q(2) qpos by (simp add: log_less_iff)
  ultimately have "of_int (52 + e) \<le> log 2 r" "log 2 r < of_int (52 + e) + 1" by simp_all
  then have "\<lfloor>log 2 r\<rfloor> = 52 + e" by (simp only: floor_eq_iff)
  then have ex: "exponent r = e" using rpos e by (simp add: exponent_def)
  have "round_half_even q = m" using near unfolding q_def by (rule round_half_even_near)
  then show ?thesis using rpos by (simp add: round64_def ex q_def)
qed

lemma round64_near_div:
  assumes "n \<le> 1074" and m: "2 ^ 52 < m" "m < 2 ^ 53"
    and near: "\<bar>r * 2 ^ n - of_int m\<bar> < 1 / 2"
  shows "round64 r = of_int m / 2 ^ n"
proof -
  have p: "2 powr real_of_int (- int n) = 1 / 2 ^ n"
    by (simp add: powr_minus_divide powr_realpow)
  have "round64 r = of_int m * 2 powr of_int (- int n)"
  proof (rule round64_near [OF _ m])
    show "- 1074 \<le> - int n" using assms(1) by simp
    show "\<bar>r / 2 powr real_of_int (- int n) - real_of_int m\<bar> < 1 / 2"
      using near by (simp only: p) simp
  qed
  then show ?thesis by (simp only: p) simp
qed

section \<open>Properties of the embedding service\<close>













text \<open>
  Where the squares underflow the computed norms are 0 and the result is 0, although
  the norms are not zero and the quotient of the specification is 1.
\<close>

lemma cosineSimilarity_underflow:
  "spec_norm2 [1 / 2 ^ 600] \<noteq> 0
   \<and> cosineSimilarity (Some (map Fin [1 / 2 ^ 600])) (Some (map Fin [1 / 2 ^ 600])) = Inr (Fin 0)"
proof -
  have acc: "accumulate [Fin (1 / 2 ^ 600)] [Fin (1 / 2 ^ 600)] (Fin 0, Fin 0, Fin 0) = (Fin 0, Fin 0, Fin 0)"
    by (simp only: accumulate.simps list.case list.sel Let_def js_mul.simps js_add.simps tiny_square
        overflow_zero add_0 round64_zero)
  have "cosineSimilarity (Some (map Fin [1 / 2 ^ 600])) (Some (map Fin [1 / 2 ^ 600])) = Inr (Fin 0)"
    by (simp only: list.map cosineSimilarity.simps acc prod.case Let_def js_sqrt.simps
        js_mul.simps real_sqrt_zero round64_zero mult_zero_left overflow_zero if_True if_False less_irrefl
        refl)
  then show ?thesis by (simp add: spec_norm2_def)
qed

text \<open>
  Rounding shows in the result: the cosine similarity of \<open>[2, 3]\<close> with itself is the
  double next above 1.
\<close>

lemma sqrt_13: "round64 (sqrt 13) = 8118979690322419 / 2 ^ 51"
proof -
  have lo: "(8118979690322419 - 1 / 2) / 2 ^ 51 < sqrt 13"
    by (rule real_less_rsqrt) (simp add: power2_eq_square)
  have hi: "sqrt 13 < (8118979690322419 + 1 / 2) / 2 ^ 51"
    by (rule real_less_lsqrt) (simp_all add: power2_eq_square)
  have "\<bar>sqrt 13 * 2 ^ 51 - real_of_int 8118979690322419\<bar> < 1 / 2"
    using lo hi by (simp add: abs_if divide_simps split: if_splits)
  then show ?thesis using round64_near_div [of 51 8118979690322419 "sqrt 13"] by simp
qed

lemma square_sqrt_13:
  "round64 (8118979690322419 / 2 ^ 51 * (8118979690322419 / 2 ^ 51)) = 7318349394477055 / 2 ^ 49"
  using round64_near_div [of 49 7318349394477055 "8118979690322419 / 2 ^ 51 * (8118979690322419 / 2 ^ 51)"]
  by simp

lemma quotient_13: "round64 (13 / (7318349394477055 / 2 ^ 49)) = 1 + 1 / 2 ^ 52"
  using round64_near_div [of 52 4503599627370497 "13 / (7318349394477055 / 2 ^ 49)"]
  by simp

lemma cosineSimilarity_rounding:
  "cosineSimilarity (Some [Fin 2, Fin 3]) (Some [Fin 2, Fin 3]) = Inr (Fin (1 + 1 / 2 ^ 52))"
proof -
  have r: "round64 4 = 4" "round64 13 = 13" by (simp_all add: round64_int)
  have acc: "accumulate [Fin 2, Fin 3] [Fin 2, Fin 3] (Fin 0, Fin 0, Fin 0) = (Fin 13, Fin 13, Fin 13)"
    by (simp add: Let_def round64_zero overflow_small r)
  have s: "js_sqrt (Fin 13) = Fin (8118979690322419 / 2 ^ 51)"
    by (simp only: js_sqrt.simps sqrt_13) simp
  have den: "js_mul (js_sqrt (Fin 13)) (js_sqrt (Fin 13)) = Fin (7318349394477055 / 2 ^ 49)"
    by (simp only: s js_mul.simps square_sqrt_13) (simp add: overflow_small)
  have nz: "(7318349394477055 / 2 ^ 49 :: real) \<noteq> 0" by simp
  have quo: "js_div (Fin 13) (Fin (7318349394477055 / 2 ^ 49)) = Fin (1 + 1 / 2 ^ 52)"
    by (simp only: js_div.simps nz if_False quotient_13) (simp add: overflow_small)
  show ?thesis
    by (simp only: cosineSimilarity.simps acc prod.case Let_def den quo) simp
qed

section \<open>Properties of the vector store\<close>

lemma upt_shift: "[i ..< i + Suc n] = i # [Suc i ..< Suc i + n]"
  by (subst upt_rec) simp

lemma push_loop_appends:
  "documents (push_loop ds embs i vs) = documents vs @ map d_text ds
   \<and> embeddings (push_loop ds embs i vs) = embeddings vs @ map (at_index embs) [i ..< i + length ds]
   \<and> metadata (push_loop ds embs i vs)
        = metadata vs @ map (\<lambda>d. case d_metadata d of None \<Rightarrow> [] | Some m \<Rightarrow> m) ds
   \<and> isLoaded (push_loop ds embs i vs) = isLoaded vs"
proof (induction ds arbitrary: i vs)
  case Nil
  show ?case by simp
next
  case (Cons d ds)
  have "[i ..< i + length (d # ds)] = i # [Suc i ..< Suc i + length ds]"
    using upt_shift [of i "length ds"] by simp
  then show ?case using Cons.IH [of "Suc i"] by (simp del: upt_Suc)
qed

text \<open>
  C4. When the embedding call of a batch fails, \<open>addDocuments\<close> returns that error and
  leaves the index (and the disk) as they were. When it succeeds, every document of the
  batch is appended to the three arrays, whatever the outcome of the save that follows:
  the batch commits in full or not at all.
\<close>

theorem addDocuments_all_or_nothing:
  "(generateEmbeddings cfg sv (Texts (map d_text docs)) = Inl e
      \<longrightarrow> addDocuments cfg sv vs dk clk docs = (Inl e, vs, dk))
   \<and> (generateEmbeddings cfg sv (Texts (map d_text docs)) = Inr embs
      \<longrightarrow> documents (fst (snd (addDocuments cfg sv vs dk clk docs)))
            = documents vs @ map d_text docs
        \<and> embeddings (fst (snd (addDocuments cfg sv vs dk clk docs)))
            = embeddings vs @ map (at_index embs) [0 ..< length docs]
        \<and> metadata (fst (snd (addDocuments cfg sv vs dk clk docs)))
            = metadata vs @ map (\<lambda>d. case d_metadata d of None \<Rightarrow> [] | Some m \<Rightarrow> m) docs
        \<and> getDocumentCount (fst (snd (addDocuments cfg sv vs dk clk docs)))
            = getDocumentCount vs + length docs)"
  using push_loop_appends [of docs embs 0 vs]
  by (auto simp: addDocuments_def getDocumentCount_def Let_def split: sum.splits)

text \<open>
  The sort: between scores that are numbers the comparator is positive exactly when the
  second score is greater.
\<close>

lemma js_slice_take: "0 \<le> k \<Longrightarrow> js_slice xs 0 k = take (nat k) xs"
  by (auto simp: js_slice_def Let_def min_def)

lemma positive_overflow: "positive (overflow r) = (r > 0)"
  using MAX_VALUE_def by (auto simp: overflow_def)

lemma positive_difference:
  assumes "on_grid x" "on_grid y"
  shows "positive (js_sub (Fin y) (Fin x)) = (y > x)"
proof (cases "x < y")
  case True
  then show ?thesis using round64_gap [OF assms True] by (simp add: positive_overflow)
next
  case False
  then have "round64 (y - x) \<le> 0" by (intro round64_nonpos) simp
  then show ?thesis using False by (simp add: positive_overflow)
qed

lemma positive_js_sub:
  assumes "is_double x" "is_double y"
  shows "positive (js_sub y x) = js_gt y x"
proof (cases x; cases y)
  fix a b
  assume "x = Fin a" "y = Fin b"
  then show ?thesis using assms positive_difference [of a b] by (simp del: js_sub.simps)
qed (use assms in auto)

lemma positive_compareFn:
  "scored a \<Longrightarrow> scored b \<Longrightarrow> positive (compareFn a b) = js_gt (snd b) (snd a)"
  by (simp add: compareFn_def scored_def positive_js_sub)

lemma js_gt_total: "is_double a \<Longrightarrow> is_double b \<Longrightarrow> \<not> js_gt b a \<Longrightarrow> js_gt a b \<or> a = b"
  by (cases a; cases b) auto

lemma js_gt_trans:
  "is_double x \<Longrightarrow> is_double y \<Longrightarrow> is_double z \<Longrightarrow> \<not> js_gt y x \<Longrightarrow> js_gt y z \<Longrightarrow> js_gt x z"
  by (cases x; cases y; cases z) auto

lemma js_gt_irrefl: "\<not> js_gt a a"
  by (cases a) auto

lemma set_insert_stable: "set (insert_stable c x ys) = insert x (set ys)"
  by (induction ys) auto

lemma length_insert_stable: "length (insert_stable c x ys) = Suc (length ys)"
  by (induction ys) auto

lemma sorted_insert_stable:
  assumes "sorted_wrt ranks_before ys" "scored x" "list_all scored ys"
    "\<forall>y \<in> set ys. fst x < fst y"
  shows "sorted_wrt ranks_before (insert_stable compareFn x ys)"
  using assms
proof (induction ys)
  case Nil
  show ?case by simp
next
  case (Cons y ys)
  have dx: "is_double (snd x)" and dy: "is_double (snd y)"
    using Cons.prems(2,3) by (simp_all add: scored_def)
  have pos: "positive (compareFn x y) = js_gt (snd y) (snd x)"
    using Cons.prems(2,3) by (simp add: positive_compareFn)
  show ?case
  proof (cases "js_gt (snd y) (snd x)")
    case True
    have IH: "sorted_wrt ranks_before (insert_stable compareFn x ys)"
      using Cons by simp
    have "ranks_before y x" using True by (simp add: ranks_before_def)
    then show ?thesis using True IH Cons.prems(1)
      by (simp add: pos set_insert_stable)
  next
    case False
    have xy: "ranks_before x y"
      using js_gt_total [OF dx dy False] Cons.prems(4) by (auto simp: ranks_before_def)
    have "ranks_before x z" if "z \<in> set ys" for z
    proof -
      have dz: "is_double (snd z)" using that Cons.prems(3) by (simp add: scored_def list_all_iff)
      have yz: "ranks_before y z" using that Cons.prems(1) by simp
      have lt: "fst x < fst z" using that Cons.prems(4) by simp
      show ?thesis
      proof (cases "js_gt (snd y) (snd z)")
        case True
        then show ?thesis using js_gt_trans [OF dx dy dz False] by (simp add: ranks_before_def)
      next
        case no: False
        then have "snd y = snd z" using yz by (simp add: ranks_before_def)
        then have "\<not> js_gt (snd z) (snd x)" using False by simp
        from js_gt_total [OF dx dz this] show ?thesis using lt by (auto simp: ranks_before_def)
      qed
    qed
    then show ?thesis using False xy Cons.prems(1)
      by (simp add: pos)
  qed
qed

lemma js_sort_ranked:
  assumes "sorted_wrt (<) (map fst sims)" "list_all scored sims"
  shows "sorted_wrt ranks_before (js_sort compareFn sims)
     \<and> set (js_sort compareFn sims) = set sims
     \<and> length (js_sort compareFn sims) = length sims"
  using assms
proof (induction sims)
  case Nil
  show ?case by (simp add: js_sort_def)
next
  case (Cons x xs)
  have IH: "sorted_wrt ranks_before (js_sort compareFn xs)"
      "set (js_sort compareFn xs) = set xs" "length (js_sort compareFn xs) = length xs"
    using Cons by simp_all
  have step: "js_sort compareFn (x # xs) = insert_stable compareFn x (js_sort compareFn xs)"
    by (simp add: js_sort_def)
  have "sorted_wrt ranks_before (insert_stable compareFn x (js_sort compareFn xs))"
  proof (rule sorted_insert_stable [OF IH(1)])
    show "scored x" using Cons.prems(2) by simp
    show "list_all scored (js_sort compareFn xs)"
      using Cons.prems(2) IH(2) by (simp add: list_all_iff)
    show "\<forall>y \<in> set (js_sort compareFn xs). fst x < fst y"
      using Cons.prems(1) IH(2) by auto
  qed
  then show ?case by (simp add: step set_insert_stable length_insert_stable IH)
qed

text \<open>A score that \<open>cosineSimilarity\<close> returns is a double or NaN.\<close>

lemma js_div_double: "js_div x y \<noteq> NaN \<Longrightarrow> is_double (js_div x y)"
proof (cases x; cases y)
  fix a b
  assume "js_div x y \<noteq> NaN" "x = Fin a" "y = Fin b"
  then show "is_double (js_div x y)"
    using overflow_cases [of "round64 (a / b)"] by (auto simp: on_grid_round64)
qed (auto simp: on_grid_zero)

lemma cosineSimilarity_double:
  assumes "cosineSimilarity q e = Inr s" "s \<noteq> NaN"
  shows "is_double s"
proof (cases q)
  case None
  then show ?thesis using assms by simp
next
  case (Some a)
  show ?thesis
  proof (cases e)
    case None
    then show ?thesis using assms Some by (auto simp: on_grid_zero split: if_splits)
  next
    case (Some b)
    obtain d p n where acc: "accumulate a b (Fin 0, Fin 0, Fin 0) = (d, p, n)"
      by (cases "accumulate a b (Fin 0, Fin 0, Fin 0)") auto
    define den where "den = js_mul (js_sqrt p) (js_sqrt n)"
    have s: "s = (if den = Fin 0 then Fin 0 else js_div d den)"
      using assms(1) by (auto simp: \<open>q = Some a\<close> Some acc Let_def den_def)
    show ?thesis
    proof (cases "den = Fin 0")
      case True
      then show ?thesis by (simp add: s on_grid_zero)
    next
      case False
      then show ?thesis using assms(2) js_div_double [of d den] by (simp add: s)
    qed
  qed
qed

lemma similarities_numbers:
  assumes "number_scores q es"
  shows "\<exists>sims. similarities q es i = Inr sims \<and> map fst sims = [i ..< i + length es]
     \<and> map (\<lambda>p. Inr (snd p)) sims = map (cosineSimilarity q) es
     \<and> list_all scored sims"
  using assms
proof (induction es arbitrary: i)
  case Nil
  show ?case by simp
next
  case (Cons e es)
  from Cons.prems obtain s where s: "cosineSimilarity q e = Inr s" "s \<noteq> NaN"
    by (cases "cosineSimilarity q e" rule: is_number.cases) (auto simp: number_scores_def)
  from Cons.prems have "number_scores q es" by (simp add: number_scores_def)
  from Cons.IH [OF this, of "Suc i"] obtain rest where
    rest: "similarities q es (Suc i) = Inr rest" "map fst rest = [Suc i ..< Suc i + length es]"
      "map (\<lambda>p. Inr (snd p)) rest = map (cosineSimilarity q) es"
      "list_all scored rest" by blast
  have "[i ..< i + length (e # es)] = i # [Suc i ..< Suc i + length es]"
    using upt_shift [of i "length es"] by simp
  moreover have "scored (i, s)" using cosineSimilarity_double [OF s] by (simp add: scored_def)
  ultimately show ?case using s rest by (simp del: upt_Suc cosineSimilarity.simps)
qed

lemma ranks_before_score: "ranks_before a b \<Longrightarrow> \<not> js_gt (snd b) (snd a)"
proof -
  assume "ranks_before a b"
  then show ?thesis
    by (cases "snd a"; cases "snd b") (auto simp: ranks_before_def)
qed

lemma length_js_sort: "length (js_sort c xs) = length xs"
  by (induction xs) (simp_all add: js_sort_def length_insert_stable)

lemma length_similarities: "similarities q es i = Inr sims \<Longrightarrow> length sims = length es"
  by (induction es arbitrary: i sims) (auto split: sum.splits)

lemma search_length:
  assumes "length (embeddings vs) = length (documents vs)" "0 \<le> topK"
    "search cfg sv vs query topK = Inr rs"
  shows "length rs \<le> nat topK \<and> length rs \<le> getDocumentCount vs"
proof (cases "documents vs = []")
  case True
  then show ?thesis using assms by (simp add: search_def)
next
  case False
  then obtain embs sims where
    sims: "similarities (case embs of [] \<Rightarrow> None | q # rest \<Rightarrow> q) (embeddings vs) 0 = Inr sims"
    and rs: "rs = map (result_of vs) (js_slice (js_sort compareFn sims) 0 topK)"
    using assms(3) by (auto simp: search_def topResults_def Let_def split: sum.splits)
  show ?thesis
    using assms(1,2) length_similarities [OF sims]
    by (simp add: rs js_slice_take length_js_sort getDocumentCount_def)
qed

text \<open>
  C3, as amended. On an empty index \<open>search\<close> returns the empty sequence, without an
  error and without calling the embedding service. On an index whose arrays have equal
  length and for a non-negative \<open>topK\<close>, whatever \<open>search\<close> returns has at most
  \<open>topK\<close> and at most \<open>size\<close> elements. When moreover no score of the query against
  the stored embeddings is NaN (and no call of \<open>cosineSimilarity\<close> raises), the result
  is determined: with \<open>sims\<close> the pairs of each index and the score that
  \<open>cosineSimilarity\<close> gives the query and the embedding at that index, and \<open>full\<close>
  the arrangement of \<open>sims\<close> in the order of \<open>ranks_before\<close> (higher score first,
  equal scores in insertion order), \<open>search\<close> returns the documents, scores and
  metadata of the first \<open>topK\<close> pairs of \<open>full\<close>: \<open>min topK size\<close> results, no
  result with a score greater than that of a result before it.
\<close>

theorem search_ranked:
  "(documents vs = [] \<longrightarrow> search cfg sv vs query topK = Inr [])
   \<and> (length (embeddings vs) = length (documents vs) \<and> 0 \<le> topK
        \<and> search cfg sv vs query topK = Inr rs
      \<longrightarrow> length rs \<le> nat topK \<and> length rs \<le> getDocumentCount vs)
   \<and> (length (embeddings vs) = length (documents vs) \<and> 0 \<le> topK
        \<and> generateEmbeddings cfg sv (Text query) = Inr (q # others)
        \<and> number_scores q (embeddings vs)
      \<longrightarrow> (\<exists>sims full.
            map fst sims = [0 ..< getDocumentCount vs]
            \<and> map (\<lambda>p. Inr (snd p)) sims = map (cosineSimilarity q) (embeddings vs)
            \<and> set full = set sims \<and> length full = length sims
            \<and> sorted_wrt ranks_before full
            \<and> topResults cfg sv vs query topK = Inr (take (nat topK) full)
            \<and> search cfg sv vs query topK = Inr (map (result_of vs) (take (nat topK) full))
            \<and> length (take (nat topK) full) = min (nat topK) (getDocumentCount vs)
            \<and> sorted_wrt (\<lambda>a b. \<not> js_gt (r_score b) (r_score a))
                 (map (result_of vs) (take (nat topK) full))))"
proof (intro conjI impI)
  show "search cfg sv vs query topK = Inr []" if "documents vs = []"
    using that by (simp add: search_def)
next
  assume "length (embeddings vs) = length (documents vs) \<and> 0 \<le> topK
        \<and> search cfg sv vs query topK = Inr rs"
  then have "length rs \<le> nat topK \<and> length rs \<le> getDocumentCount vs"
    using search_length [of vs topK cfg sv query rs] by blast
  then show "length rs \<le> nat topK" and "length rs \<le> getDocumentCount vs" by simp_all
next
  assume H: "length (embeddings vs) = length (documents vs) \<and> 0 \<le> topK
        \<and> generateEmbeddings cfg sv (Text query) = Inr (q # others)
        \<and> number_scores q (embeddings vs)"
  then obtain sims where sims: "similarities q (embeddings vs) 0 = Inr sims"
      "map fst sims = [0 ..< 0 + length (embeddings vs)]"
      "map (\<lambda>p. Inr (snd p)) sims = map (cosineSimilarity q) (embeddings vs)"
      "list_all scored sims"
    using similarities_numbers [of q "embeddings vs" 0] by blast
  have "sorted_wrt (<) (map fst sims)" by (simp add: sims(2))
  from js_sort_ranked [OF this sims(4)]
  have srt: "sorted_wrt ranks_before (js_sort compareFn sims)"
      "set (js_sort compareFn sims) = set sims" "length (js_sort compareFn sims) = length sims"
    by simp_all
  define full where "full = js_sort compareFn sims"
  define ranked where "ranked = take (nat topK) full"
  have top: "topResults cfg sv vs query topK = Inr ranked"
    using H sims(1) by (simp add: topResults_def ranked_def full_def js_slice_take)
  have len: "length sims = length (documents vs)"
    using H arg_cong [OF sims(2), of length] by simp
  have ix: "map fst sims = [0 ..< getDocumentCount vs]"
    using H sims(2) by (simp add: getDocumentCount_def)
  have l: "length ranked = min (nat topK) (getDocumentCount vs)"
    by (simp add: ranked_def full_def srt(3) len getDocumentCount_def min.commute)
  have s: "sorted_wrt ranks_before ranked"
    unfolding ranked_def full_def by (rule sorted_wrt_take [OF srt(1)])
  have r: "sorted_wrt (\<lambda>a b. \<not> js_gt (r_score b) (r_score a)) (map (result_of vs) ranked)"
    using sorted_wrt_mono_rel [of ranked ranks_before "\<lambda>a b. \<not> js_gt (snd b) (snd a)"] s
    by (simp add: sorted_wrt_map result_of_def ranks_before_score)
  have se: "search cfg sv vs query topK = Inr (map (result_of vs) ranked)"
  proof (cases "documents vs = []")
    case True
    then have "ranked = []" using l by (simp add: getDocumentCount_def)
    then show ?thesis using True by (simp add: search_def)
  next
    case False
    then show ?thesis by (simp add: search_def top)
  qed
  show "\<exists>sims full.
            map fst sims = [0 ..< getDocumentCount vs]
            \<and> map (\<lambda>p. Inr (snd p)) sims = map (cosineSimilarity q) (embeddings vs)
            \<and> set full = set sims \<and> length full = length sims
            \<and> sorted_wrt ranks_before full
            \<and> topResults cfg sv vs query topK = Inr (take (nat topK) full)
            \<and> search cfg sv vs query topK = Inr (map (result_of vs) (take (nat topK) full))
            \<and> length (take (nat topK) full) = min (nat topK) (getDocumentCount vs)
            \<and> sorted_wrt (\<lambda>a b. \<not> js_gt (r_score b) (r_score a))
                 (map (result_of vs) (take (nat topK) full))"
    using ix sims(3) srt(2,3) srt(1) top se l r unfolding ranked_def full_def by blast
qed

text \<open>
  The arrays of the index have equal length in a new store, and \<open>addDocuments\<close>,
  \<open>clear\<close> and a \<open>load\<close> of what \<open>save\<close> wrote keep them so.
\<close>

lemma equal_lengths_kept:
  "length (embeddings newVectorStore) = length (documents newVectorStore)"
  "length (embeddings vs) = length (documents vs) \<Longrightarrow>
     length (embeddings (fst (snd (addDocuments cfg sv vs dk clk docs))))
       = length (documents (fst (snd (addDocuments cfg sv vs dk clk docs))))"
  "length (embeddings (fst (snd (clear vs dk clk)))) = length (documents (fst (snd (clear vs dk clk))))"
proof -
  show "length (embeddings newVectorStore) = length (documents newVectorStore)"
    by (simp add: newVectorStore_def)
  show "length (embeddings (fst (snd (clear vs dk clk)))) = length (documents (fst (snd (clear vs dk clk))))"
    by (simp add: clear_def Let_def split: sum.splits)
  show "length (embeddings (fst (snd (addDocuments cfg sv vs dk clk docs))))
       = length (documents (fst (snd (addDocuments cfg sv vs dk clk docs))))"
    if "length (embeddings vs) = length (documents vs)"
    using that push_loop_appends [of docs _ 0 vs]
    by (auto simp: addDocuments_def Let_def split: sum.splits)
qed

lemma load_after_save:
  assumes "save vs dk clk = Inr dk'"
  shows "\<exists>vs'. load vs0 dk' = Inr vs' \<and> documents vs' = documents vs
    \<and> embeddings vs' = embeddings vs \<and> metadata vs' = metadata vs"
  using assms by (auto simp: save_def load_def split: if_splits)

lemma example_embedding:
  "generateEmbeddings example_config example_services (Text ''weather today'')
     = Inr [Some [Fin 1, Fin 0]]"
  by (simp add: generateEmbeddings_def example_config_def example_services_def)

lemma example_scores:
  "cosineSimilarity (Some [Fin 1, Fin 0]) (Some [Fin 1, Fin 0]) = Inr (Fin 1)"
  "cosineSimilarity (Some [Fin 1, Fin 0]) (Some [Fin 0, Fin 1]) = Inr (Fin 0)"
  "cosineSimilarity (Some [Fin 1, Fin 0]) (Some [Fin 1]) = Inr NaN"
  by (simp_all add: round64_zero overflow_small Let_def)

lemma example_differences:
  "js_sub (Fin 1) (Fin 1) = Fin 0" "js_sub (Fin 0) (Fin 1) = Fin (- 1)" "js_sub (Fin 1) (Fin 0) = Fin 1"
  "js_sub (Fin 0) (Fin 0) = Fin 0"
  using round64_int [of "- 1"] by (simp_all add: round64_zero overflow_small)

lemma js_sub_NaN: "js_sub NaN (Fin r) = NaN" "js_sub (Fin r) NaN = NaN"
  by simp_all

text \<open>The index \<open>mixed_index\<close> is what three calls of \<open>addDocuments\<close> leave.\<close>

lemma mixed_index_reached:
  "fst (snd (addDocuments mixed_config mixed_services
     (fst (snd (addDocuments mixed_config mixed_services
        (fst (snd (addDocuments mixed_config mixed_services newVectorStore
           \<lparr>index_json = None, writable = False\<rparr> example_clock
           [\<lparr>d_text = Some ''sports: cup final'', d_metadata = None\<rparr>])))
        \<lparr>index_json = None, writable = False\<rparr> example_clock
        [\<lparr>d_text = Some ''politics: vote'', d_metadata = None\<rparr>])))
     \<lparr>index_json = None, writable = False\<rparr> example_clock
     [\<lparr>d_text = Some ''weather: rain on friday'', d_metadata = None\<rparr>]))
   = mixed_index"
  by (simp add: addDocuments_def generateEmbeddings_def mixed_config_def mixed_services_def
      example_services_def newVectorStore_def save_def at_index_def mixed_index_def Let_def)

lemma mixed_embedding:
  "generateEmbeddings mixed_config mixed_services (Text ''weather today'')
     = Inr [Some [Fin 1, Fin 0]]"
  by (simp add: generateEmbeddings_def mixed_config_def mixed_services_def example_services_def)

text \<open>
  C3, as stated, fails on an index that holds embeddings of two dimensions, which
  \<open>addDocuments\<close> builds when the embedding service answers for one batch and the local
  fallback for another. The score of a query of dimension 2 against an embedding of
  dimension 1 is NaN, the comparator is NaN against it, and the sort leaves the scores
  0, NaN, 1 in this order: the third result has a greater score than the first, and with
  \<open>topK = 2\<close> the best match is not returned.
\<close>

theorem search_unsorted_with_NaN_score:
  "length (embeddings mixed_index) = length (documents mixed_index)
   \<and> search mixed_config mixed_services mixed_index ''weather today'' 3
       = Inr [\<lparr>r_text = Some ''sports: cup final'', r_score = Fin 0, r_metadata = Some []\<rparr>,
              \<lparr>r_text = Some ''politics: vote'', r_score = NaN, r_metadata = Some []\<rparr>,
              \<lparr>r_text = Some ''weather: rain on friday'', r_score = Fin 1, r_metadata = Some []\<rparr>]
   \<and> js_gt (Fin 1) (Fin 0)
   \<and> search mixed_config mixed_services mixed_index ''weather today'' 2
       = Inr [\<lparr>r_text = Some ''sports: cup final'', r_score = Fin 0, r_metadata = Some []\<rparr>,
              \<lparr>r_text = Some ''politics: vote'', r_score = NaN, r_metadata = Some []\<rparr>]"
  by (simp add: search_def topResults_def mixed_embedding mixed_index_def example_scores
      js_sort_def compareFn_def js_slice_def example_differences js_sub_NaN result_of_def
      at_index_def at_index_obj_def del: cosineSimilarity.simps js_sub.simps)

theorem search_ranked_witness:
  "search example_config example_services newVectorStore ''weather today'' 5 = Inr []
   \<and> length (embeddings example_index) = length (documents example_index)
   \<and> generateEmbeddings example_config example_services (Text ''weather today'')
        = Inr [Some [Fin 1, Fin 0]]
   \<and> number_scores (Some [Fin 1, Fin 0]) (embeddings example_index)
   \<and> topResults example_config example_services example_index ''weather today'' 2
        = Inr [(0, Fin 1), (2, Fin 1)]
   \<and> search example_config example_services example_index ''weather today'' 2
        = Inr [\<lparr>r_text = Some ''weather: sunny tomorrow'', r_score = Fin 1,
                 r_metadata = Some [(''title'', JStr ''Forecast'')]\<rparr>,
               \<lparr>r_text = Some ''weather: rain on friday'', r_score = Fin 1,
                 r_metadata = Some []\<rparr>]
   \<and> sorted_wrt ranks_before [(0, Fin 1), (2, Fin 1)]
   \<and> length (map (result_of example_index) [(0, Fin 1), (2, Fin 1)]) \<le> nat 2
   \<and> length (map (result_of example_index) [(0, Fin 1), (2, Fin 1)])
        \<le> getDocumentCount example_index"
proof -
  have empty: "search example_config example_services newVectorStore ''weather today'' 5 = Inr []"
    using search_ranked [where vs = newVectorStore and cfg = example_config
        and sv = example_services and query = "''weather today''" and topK = 5]
    by (simp add: newVectorStore_def)
  have fs: "number_scores (Some [Fin 1, Fin 0]) (embeddings example_index)"
    by (simp add: number_scores_def example_index_def example_scores del: cosineSimilarity.simps)
  have top: "topResults example_config example_services example_index ''weather today'' 2
        = Inr [(0, Fin 1), (2, Fin 1)]"
    by (simp add: topResults_def example_embedding example_index_def example_scores
        js_sort_def compareFn_def js_slice_def example_differences
        del: cosineSimilarity.simps js_sub.simps)
  have len: "length (embeddings example_index) = length (documents example_index)"
    by (simp add: example_index_def)
  have hyp: "length (embeddings example_index) = length (documents example_index) \<and> (0::int) \<le> 2
      \<and> generateEmbeddings example_config example_services (Text ''weather today'')
          = Inr [Some [Fin 1, Fin 0]]
      \<and> number_scores (Some [Fin 1, Fin 0]) (embeddings example_index)"
    using len fs example_embedding by simp
  have "\<exists>full. topResults example_config example_services example_index ''weather today'' 2
          = Inr (take (nat 2) full)
      \<and> search example_config example_services example_index ''weather today'' 2
          = Inr (map (result_of example_index) (take (nat 2) full))
      \<and> sorted_wrt ranks_before full"
    using search_ranked [where vs = example_index and cfg = example_config
        and sv = example_services and query = "''weather today''" and topK = 2
        and q = "Some [Fin 1, Fin 0]" and others = "[]"] hyp by blast
  then obtain full where full:
      "topResults example_config example_services example_index ''weather today'' 2
          = Inr (take (nat 2) full)"
      "search example_config example_services example_index ''weather today'' 2
          = Inr (map (result_of example_index) (take (nat 2) full))"
      "sorted_wrt ranks_before full"
    by blast
  have tk: "take (nat 2) full = [(0, Fin 1), (2, Fin 1)]"
    using full(1) by (simp only: top sum.inject)
  have "sorted_wrt ranks_before (take (nat 2) full)" by (rule sorted_wrt_take [OF full(3)])
  then have se: "search example_config example_services example_index ''weather today'' 2
       = Inr (map (result_of example_index) [(0, Fin 1), (2, Fin 1)])
     \<and> sorted_wrt ranks_before [(0, Fin 1), (2, Fin 1)]"
    using full(2) by (simp only: tk)
  have "length (embeddings example_index) = length (documents example_index) \<and> (0::int) \<le> 2
      \<and> search example_config example_services example_index ''weather today'' 2
          = Inr (map (result_of example_index) [(0, Fin 1), (2, Fin 1)])"
    using len se by simp
  then have bound: "length (map (result_of example_index) [(0, Fin 1), (2, Fin 1)]) \<le> nat 2
      \<and> length (map (result_of example_index) [(0, Fin 1), (2, Fin 1)])
           \<le> getDocumentCount example_index"
    using search_ranked [where vs = example_index and cfg = example_config
        and sv = example_services and query = "''weather today''" and topK = 2
        and rs = "map (result_of example_index) [(0, Fin 1), (2, Fin 1)]"] by blast
  show ?thesis
    using empty fs top example_embedding len se bound
    by (simp add: result_of_def example_index_def at_index_def at_index_obj_def)
qed

theorem addDocuments_all_or_nothing_witness:
  "generateEmbeddings example_config example_services
       (Texts (map d_text [\<lparr>d_text = None, d_metadata = None\<rparr>])) = Inl TypeError
   \<and> addDocuments example_config example_services example_index
         \<lparr>index_json = None, writable = True\<rparr> example_clock [\<lparr>d_text = None, d_metadata = None\<rparr>]
       = (Inl TypeError, example_index, \<lparr>index_json = None, writable = True\<rparr>)
   \<and> generateEmbeddings example_config example_services (Texts (map d_text example_docs))
       = Inr [Some [Fin 1, Fin 0], Some [Fin 0, Fin 1], Some [Fin 1, Fin 0]]
   \<and> documents (fst (snd (addDocuments example_config example_services newVectorStore
         \<lparr>index_json = None, writable = False\<rparr> example_clock example_docs)))
       = documents example_index
   \<and> embeddings (fst (snd (addDocuments example_config example_services newVectorStore
         \<lparr>index_json = None, writable = False\<rparr> example_clock example_docs)))
       = embeddings example_index
   \<and> getDocumentCount (fst (snd (addDocuments example_config example_services newVectorStore
         \<lparr>index_json = None, writable = False\<rparr> example_clock example_docs))) = 3"
proof -
  have bad: "generateEmbeddings example_config example_services
       (Texts (map d_text [\<lparr>d_text = None, d_metadata = None\<rparr>])) = Inl TypeError"
    by (simp add: generateEmbeddings_def example_config_def)
  have good: "generateEmbeddings example_config example_services (Texts (map d_text example_docs))
       = Inr [Some [Fin 1, Fin 0], Some [Fin 0, Fin 1], Some [Fin 1, Fin 0]]"
    by (simp add: generateEmbeddings_def example_config_def example_services_def example_docs_def)
  show ?thesis
    using bad good
      addDocuments_all_or_nothing [where cfg = example_config and sv = example_services
        and docs = "[\<lparr>d_text = None, d_metadata = None\<rparr>]" and e = TypeError
        and vs = example_index and dk = "\<lparr>index_json = None, writable = True\<rparr>"
        and clk = example_clock]
      addDocuments_all_or_nothing [where cfg = example_config and sv = example_services
        and docs = example_docs
        and embs = "[Some [Fin 1, Fin 0], Some [Fin 0, Fin 1], Some [Fin 1, Fin 0]]"
        and vs = newVectorStore and dk = "\<lparr>index_json = None, writable = False\<rparr>"
        and clk = example_clock]
    by (simp add: example_index_def example_docs_def newVectorStore_def getDocumentCount_def
        at_index_def upt_conv_Cons)
qed

section \<open>Properties of the pipeline\<close>

text \<open>The session operations on a validated store, one lemma for each step of the pipeline.\<close>

lemma validatedE:
  assumes "validated cfg st clk sid ms"
  obtains s where "store st (sessionPrefix @ sid) = Some (Str (JSON s))"
    and "ttls st (sessionPrefix @ sid) = Some (Date_now clk + sessionTTL cfg * 1000)"
    and "history_holds st sid ms"
    and "store st (historyPrefix @ sid) = None
           \<or> ttls st (historyPrefix @ sid) = Some (Date_now clk + sessionTTL cfg * 1000)"
    and "0 \<le> sessionTTL cfg"
  using assms by (auto simp: validated_def split: option.splits val.splits jstext.splits)

lemma validatedI:
  assumes "store st (sessionPrefix @ sid) = Some (Str (JSON s))"
    and "ttls st (sessionPrefix @ sid) = Some (Date_now clk + sessionTTL cfg * 1000)"
    and "history_holds st sid ms"
    and "store st (historyPrefix @ sid) = None
           \<or> ttls st (historyPrefix @ sid) = Some (Date_now clk + sessionTTL cfg * 1000)"
    and "0 \<le> sessionTTL cfg"
  shows "validated cfg st clk sid ms"
  using assms by (auto simp: validated_def)

lemma validateSession_ok:
  assumes "store st (sessionPrefix @ sid) = Some (Str (JSON s))"
    and "\<not> expired st (Date_now clk) (sessionPrefix @ sid)"
    and "history_holds st sid ms" and "0 \<le> sessionTTL cfg"
  shows "\<exists>st1. validateSession cfg st clk sid = (True, st1) \<and> validated cfg st1 clk sid ms"
  using assms prefixes_differ [of sid sid]
  by (auto simp: validateSession_def exists_def expire_def checkExpiry_live Let_def
      validated_def history_holds_def split: option.splits)

lemma js_slice_last_ten: "js_slice xs (- 10) (int (length xs)) = last_ten xs"
  using js_slice_last [of 10 xs] by (simp add: last_ten_def min_def)

lemma getHistory_validated:
  assumes "validated cfg st clk sid ms"
  shows "\<exists>st2. getHistory st clk sid 10 = (Inr (last_ten ms), st2) \<and> validated cfg st2 clk sid ms"
proof -
  from assms obtain s where
    s: "store st (sessionPrefix @ sid) = Some (Str (JSON s))"
    and ts: "ttls st (sessionPrefix @ sid) = Some (Date_now clk + sessionTTL cfg * 1000)"
    and h: "history_holds st sid ms"
    and th: "store st (historyPrefix @ sid) = None
           \<or> ttls st (historyPrefix @ sid) = Some (Date_now clk + sessionTTL cfg * 1000)"
    and ttl: "0 \<le> sessionTTL cfg"
    by (rule validatedE)
  let ?st2 = "checkExpiry st (Date_now clk) (historyPrefix @ sid)"
  have keep: "store ?st2 = store st"
    using th ttl by (auto simp: checkExpiry_def fun_eq_iff split: option.splits)
  have tk: "ttls ?st2 (sessionPrefix @ sid) = ttls st (sessionPrefix @ sid)"
    using prefixes_differ [of sid sid] by (auto simp: checkExpiry_def split: option.splits)
  have th2: "store ?st2 (historyPrefix @ sid) = None
           \<or> ttls ?st2 (historyPrefix @ sid) = Some (Date_now clk + sessionTTL cfg * 1000)"
    using th ttl by (auto simp: checkExpiry_def split: option.splits)
  have v2: "validated cfg ?st2 clk sid ms"
    using s ts h th2 ttl by (intro validatedI [of _ _ s]) (simp_all add: keep tk history_holds_def)
  have "getHistory st clk sid 10 = (Inr (last_ten ms), ?st2)"
    using h
    by (auto simp: getHistory_def lrange_def keep history_holds_def Let_def parse_each_JSON
        js_slice_last_ten [of "map JSON ms", simplified] last_ten_def drop_map
        split: option.splits)
  then show ?thesis using v2 by blast
qed

lemma addMessage_validated:
  assumes "validated cfg st clk sid ms"
  shows "\<exists>st'. addMessage cfg st clk u sid role content
            = (Inr (message_of clk u role content), st')
        \<and> validated cfg st' clk sid (ms @ [message_of clk u role content])"
proof -
  from assms obtain s where
    s: "store st (sessionPrefix @ sid) = Some (Str (JSON s))"
    and ts: "ttls st (sessionPrefix @ sid) = Some (Date_now clk + sessionTTL cfg * 1000)"
    and h: "history_holds st sid ms"
    and ttl: "0 \<le> sessionTTL cfg"
    by (rule validatedE)
  let ?m = "message_of clk u role content"
  let ?e = "Date_now clk + sessionTTL cfg * 1000"
  let ?s' = "obj_set ''messageCount'' (next_count (map_of s ''messageCount'')) s"
  let ?st' = "st\<lparr>store := (store st)(historyPrefix @ sid \<mapsto> Arr (map JSON ms @ [JSON ?m]),
                                   sessionPrefix @ sid \<mapsto> Str (JSON ?s')),
                ttls := (ttls st)(sessionPrefix @ sid \<mapsto> ?e, historyPrefix @ sid \<mapsto> ?e)\<rparr>"
  have d: "sessionPrefix @ sid \<noteq> historyPrefix @ sid" "historyPrefix @ sid \<noteq> sessionPrefix @ sid"
    using prefixes_differ [of sid sid] by auto
  have push: "rpush st (historyPrefix @ sid) [JSON ?m]
      = (Inr (Suc (length ms)),
         st\<lparr>store := (store st)(historyPrefix @ sid \<mapsto> Arr (map JSON ms @ [JSON ?m]))\<rparr>)"
    using h by (auto simp: rpush_def history_holds_def split: option.splits)
  let ?st1 = "st\<lparr>store := (store st)(historyPrefix @ sid \<mapsto> Arr (map JSON ms @ [JSON ?m]))\<rparr>"
  have live: "checkExpiry ?st1 (Date_now clk) (sessionPrefix @ sid) = ?st1"
    using ts ttl by (simp add: checkExpiry_def)
  have gs: "getSession ?st1 clk sid = (Inr (Some s), ?st1)"
    using s d by (simp add: getSession_def get_def live Let_def)
  have eq: "addMessage cfg st clk u sid role content = (Inr ?m, ?st')"
    using d
    by (simp add: addMessage_def push gs setex_def expire_def Let_def
        message_of_def [symmetric])
  have "validated cfg ?st' clk sid (ms @ [?m])"
    using d ttl by (intro validatedI [of _ _ ?s']) (simp_all add: history_holds_def)
  then show ?thesis using eq by blast
qed

lemma kv_ensure_initialized: "kv (ensure_initialized w) = kv w"
  by (simp add: ensure_initialized_def RAGService_initialize_def)

lemma validated_history:
  assumes "validated cfg st clk sid ms" and "ms \<noteq> []"
  shows "history_holds st sid ms \<and> \<not> expired st (Date_now clk) (historyPrefix @ sid)
     \<and> \<not> expired st (Date_now clk) (sessionPrefix @ sid)"
  using assms
  by (auto simp: validated_def expired_def history_holds_def split: option.splits)

lemma store_turns_validated:
  assumes "validated cfg st clk sid ms"
  shows "\<exists>st'. store_turns cfg st clk u1 u2 sid query reply = (Inr (), st')
     \<and> validated cfg st' clk sid
          (ms @ [message_of clk u1 ''user'' query, message_of clk u2 ''assistant'' reply])"
proof -
  from addMessage_validated [OF assms, of u1 "''user''" query] obtain st1 where
    a1: "addMessage cfg st clk u1 sid ''user'' query = (Inr (message_of clk u1 ''user'' query), st1)"
    and v1: "validated cfg st1 clk sid (ms @ [message_of clk u1 ''user'' query])" by blast
  from addMessage_validated [OF v1, of u2 "''assistant''" reply] obtain st2 where
    a2: "addMessage cfg st1 clk u2 sid ''assistant'' reply
          = (Inr (message_of clk u2 ''assistant'' reply), st2)"
    and v2: "validated cfg st2 clk sid
          ((ms @ [message_of clk u1 ''user'' query]) @ [message_of clk u2 ''assistant'' reply])"
    by blast
  show ?thesis using a1 a2 v2 by (simp add: store_turns_def)
qed

text \<open>
  C5. For a session that exists and has not expired, when the corpus is empty (after the
  initialisation that the call may run) both \<open>processQuery\<close> and \<open>processQueryStream\<close>
  succeed with the canned answer and no sources; the streaming variant passes the canned
  answer to the sink once; the history list afterwards is the former one followed by the
  user turn and the canned answer as the assistant turn; and the outcome is the same
  whatever the two generation functions are, so the generation component plays no part.
\<close>

theorem empty_corpus_canned_answer:
  assumes empty: "documents (vectorStore (ensure_initialized w)) = []"
    and sess: "store (kv w) (sessionPrefix @ sid) = Some (Str (JSON s))"
    and live: "\<not> expired (kv w) (Date_now clk) (sessionPrefix @ sid)"
    and hist: "history_holds (kv w) sid ms"
    and ttl: "0 \<le> sessionTTL cfg"
  shows "\<exists>st'.
      processQuery cfg sv w clk u1 u2 sid query
        = (Inr \<lparr>answer = noDocsResponse, sources = []\<rparr>, (ensure_initialized w)\<lparr>kv := st'\<rparr>)
    \<and> processQueryStream cfg sv w clk u1 u2 sid query True
        = (Inr \<lparr>answer = noDocsResponse, sources = []\<rparr>, (ensure_initialized w)\<lparr>kv := st'\<rparr>,
           [noDocsResponse])
    \<and> history_holds st' sid
        (ms @ [message_of clk u1 ''user'' query, message_of clk u2 ''assistant'' noDocsResponse])
    \<and> \<not> expired st' (Date_now clk) (historyPrefix @ sid)
    \<and> processQuery cfg (sv\<lparr>generateContent := g, generateContentStream := gs\<rparr>) w clk u1 u2 sid query
        = processQuery cfg sv w clk u1 u2 sid query
    \<and> processQueryStream cfg (sv\<lparr>generateContent := g, generateContentStream := gs\<rparr>) w clk u1 u2
          sid query True
        = processQueryStream cfg sv w clk u1 u2 sid query True"
proof -
  let ?w = "ensure_initialized w"
  from validateSession_ok [OF sess live hist ttl] obtain st1 where
    v: "validateSession cfg (kv w) clk sid = (True, st1)" and v1: "validated cfg st1 clk sid ms"
    by blast
  from getHistory_validated [OF v1] obtain st2 where
    h: "getHistory st1 clk sid 10 = (Inr (last_ten ms), st2)" and v2: "validated cfg st2 clk sid ms"
    by blast
  from store_turns_validated [OF v2, of u1 u2 query noDocsResponse] obtain st3 where
    t: "store_turns cfg st2 clk u1 u2 sid query noDocsResponse = (Inr (), st3)"
    and v3: "validated cfg st3 clk sid
          (ms @ [message_of clk u1 ''user'' query, message_of clk u2 ''assistant'' noDocsResponse])"
    by blast
  have se: "search cfg sv' (vectorStore ?w) query rag_topK = Inr []" for sv'
    using empty by (simp add: search_def)
  have pq: "processQuery cfg sv' w clk u1 u2 sid query
        = (Inr \<lparr>answer = noDocsResponse, sources = []\<rparr>, ?w\<lparr>kv := st3\<rparr>)" for sv'
    by (simp add: processQuery_def Let_def kv_ensure_initialized v h se t)
  have ps: "processQueryStream cfg sv' w clk u1 u2 sid query True
        = (Inr \<lparr>answer = noDocsResponse, sources = []\<rparr>, ?w\<lparr>kv := st3\<rparr>, [noDocsResponse])" for sv'
    by (simp add: processQueryStream_def Let_def kv_ensure_initialized v h se t)
  show ?thesis
    using validated_history [OF v3] by (intro exI [of _ st3]) (simp add: pq ps)
qed


text \<open>The pipeline with a non-empty retrieval, by the outcome of the generation.\<close>

lemma pipeline_prefix:
  assumes sess: "store (kv w) (sessionPrefix @ sid) = Some (Str (JSON s))"
    and live: "\<not> expired (kv w) (Date_now clk) (sessionPrefix @ sid)"
    and hist: "history_holds (kv w) sid ms"
    and ttl: "0 \<le> sessionTTL cfg"
  obtains st1 st2 st3 where
    "validateSession cfg (kv w) clk sid = (True, st1)"
    "getHistory st1 clk sid 10 = (Inr (last_ten ms), st2)"
    "addMessage cfg st2 clk u1 sid ''user'' query = (Inr (message_of clk u1 ''user'' query), st3)"
    "validated cfg st3 clk sid (ms @ [message_of clk u1 ''user'' query])"
proof -
  from validateSession_ok [OF sess live hist ttl] obtain st1 where
    v: "validateSession cfg (kv w) clk sid = (True, st1)" and v1: "validated cfg st1 clk sid ms"
    by blast
  from getHistory_validated [OF v1] obtain st2 where
    h: "getHistory st1 clk sid 10 = (Inr (last_ten ms), st2)" and v2: "validated cfg st2 clk sid ms"
    by blast
  from addMessage_validated [OF v2, of u1 "''user''" query] obtain st3 where
    a: "addMessage cfg st2 clk u1 sid ''user'' query = (Inr (message_of clk u1 ''user'' query), st3)"
    and v3: "validated cfg st3 clk sid (ms @ [message_of clk u1 ''user'' query])"
    by blast
  show thesis using v h a v3 by (rule that)
qed

lemma make_sources_defined:
  "list_all (\<lambda>d. r_text d \<noteq> None) docs \<Longrightarrow> \<exists>ss. make_sources sv docs = Inr ss"
proof (induction docs)
  case Nil
  show ?case by simp
next
  case (Cons d docs)
  then obtain t ss where "r_text d = Some t" "make_sources sv docs = Inr ss" by auto
  then show ?case by simp
qed

lemma source_lines_defined:
  "list_all (\<lambda>d. r_text d \<noteq> None) docs \<Longrightarrow> \<exists>ls. source_lines i docs = Inr ls"
proof (induction docs arbitrary: i)
  case Nil
  show ?case by simp
next
  case (Cons d docs)
  from Cons.prems obtain t where t: "r_text d = Some t" by auto
  from Cons.prems have "list_all (\<lambda>d. r_text d \<noteq> None) docs" by simp
  from Cons.IH [OF this, of "Suc i"] obtain ls where "source_lines (Suc i) docs = Inr ls"
    by blast
  then show ?case using t by simp
qed

lemma fallbackResponse_defined:
  assumes "list_all (\<lambda>d. r_text d \<noteq> None) docs"
  shows "\<exists>fallback. fallbackResponse docs = Inr fallback"
proof -
  have "list_all (\<lambda>d. r_text d \<noteq> None) (take 3 docs)"
    using assms by (auto simp: list_all_iff dest: in_set_takeD)
  from source_lines_defined [OF this, of 0] obtain ls where
    "source_lines 0 (take 3 docs) = Inr ls" by blast
  then show ?thesis by (simp add: fallbackResponse_def js_slice_take)
qed

lemma streamResponse_completed:
  "generateContentStream sv (build_contents q docs h) = (chunks, None) \<Longrightarrow>
     streamResponse sv q docs h True = (Inr (concat chunks), chunks)"
  by (simp add: streamResponse_def)

lemma streamResponse_rate_limited:
  "generateContentStream sv (build_contents q docs h) = (chunks, Some err) \<Longrightarrow>
   status_of err = Some 429 \<Longrightarrow> fallbackResponse docs = Inr fallback \<Longrightarrow>
     streamResponse sv q docs h True = (Inr fallback, chunks @ [fallback])"
  by (simp add: streamResponse_def)

lemma streamResponse_failed:
  "generateContentStream sv (build_contents q docs h) = (chunks, Some err) \<Longrightarrow>
   status_of err \<noteq> Some 429 \<Longrightarrow>
     streamResponse sv q docs h True
       = (Inl (Error ''Failed to stream response from Gemini API''), chunks)"
  by (simp add: streamResponse_def)

lemma stream_answered:
  assumes sess: "store (kv w) (sessionPrefix @ sid) = Some (Str (JSON s))"
    and live: "\<not> expired (kv w) (Date_now clk) (sessionPrefix @ sid)"
    and hist: "history_holds (kv w) sid ms"
    and ttl: "0 \<le> sessionTTL cfg"
    and found: "search cfg sv (vectorStore (ensure_initialized w)) query rag_topK = Inr docs"
    and some: "docs \<noteq> []"
    and texts: "list_all (\<lambda>d. r_text d \<noteq> None) docs"
    and sr: "streamResponse sv query docs (map role_content (last_ten ms)) True
               = (Inr reply, deltas)"
  shows "\<exists>st' ss. make_sources sv docs = Inr ss
      \<and> processQueryStream cfg sv w clk u1 u2 sid query True
          = (Inr \<lparr>answer = reply, sources = ss\<rparr>, (ensure_initialized w)\<lparr>kv := st'\<rparr>, deltas)
      \<and> history_holds st' sid
          (ms @ [message_of clk u1 ''user'' query, message_of clk u2 ''assistant'' reply])"
proof -
  from pipeline_prefix [OF sess live hist ttl, of u1 query] obtain st1 st2 st3 where
    v: "validateSession cfg (kv w) clk sid = (True, st1)"
    and h: "getHistory st1 clk sid 10 = (Inr (last_ten ms), st2)"
    and a1: "addMessage cfg st2 clk u1 sid ''user'' query
               = (Inr (message_of clk u1 ''user'' query), st3)"
    and v3: "validated cfg st3 clk sid (ms @ [message_of clk u1 ''user'' query])"
    by blast
  from addMessage_validated [OF v3, of u2 "''assistant''" reply] obtain st4 where
    a2: "addMessage cfg st3 clk u2 sid ''assistant'' reply
           = (Inr (message_of clk u2 ''assistant'' reply), st4)"
    and v4: "validated cfg st4 clk sid
           ((ms @ [message_of clk u1 ''user'' query]) @ [message_of clk u2 ''assistant'' reply])"
    by blast
  from make_sources_defined [OF texts, of sv] obtain ss where ss: "make_sources sv docs = Inr ss"
    by blast
  have "processQueryStream cfg sv w clk u1 u2 sid query True
          = (Inr \<lparr>answer = reply, sources = ss\<rparr>, (ensure_initialized w)\<lparr>kv := st4\<rparr>, deltas)"
    using some
    by (simp add: processQueryStream_def Let_def kv_ensure_initialized v h found a1 sr a2 ss)
  moreover have "history_holds st4 sid
          (ms @ [message_of clk u1 ''user'' query, message_of clk u2 ''assistant'' reply])"
    using validated_history [OF v4] by simp
  ultimately show ?thesis using ss by blast
qed

lemma stream_aborted:
  assumes sess: "store (kv w) (sessionPrefix @ sid) = Some (Str (JSON s))"
    and live: "\<not> expired (kv w) (Date_now clk) (sessionPrefix @ sid)"
    and hist: "history_holds (kv w) sid ms"
    and ttl: "0 \<le> sessionTTL cfg"
    and found: "search cfg sv (vectorStore (ensure_initialized w)) query rag_topK = Inr docs"
    and some: "docs \<noteq> []"
    and sr: "streamResponse sv query docs (map role_content (last_ten ms)) True
               = (Inl e, deltas)"
  shows "\<exists>st'. processQueryStream cfg sv w clk u1 u2 sid query True
          = (Inl e, (ensure_initialized w)\<lparr>kv := st'\<rparr>, deltas)
      \<and> history_holds st' sid (ms @ [message_of clk u1 ''user'' query])"
proof -
  from pipeline_prefix [OF sess live hist ttl, of u1 query] obtain st1 st2 st3 where
    v: "validateSession cfg (kv w) clk sid = (True, st1)"
    and h: "getHistory st1 clk sid 10 = (Inr (last_ten ms), st2)"
    and a1: "addMessage cfg st2 clk u1 sid ''user'' query
               = (Inr (message_of clk u1 ''user'' query), st3)"
    and v3: "validated cfg st3 clk sid (ms @ [message_of clk u1 ''user'' query])"
    by blast
  have "processQueryStream cfg sv w clk u1 u2 sid query True
          = (Inl e, (ensure_initialized w)\<lparr>kv := st3\<rparr>, deltas)"
    using some
    by (simp add: processQueryStream_def Let_def kv_ensure_initialized v h found a1 sr)
  moreover have "history_holds st3 sid (ms @ [message_of clk u1 ''user'' query])"
    using validated_history [OF v3] by simp
  ultimately show ?thesis by blast
qed

lemma blocking_aborted:
  assumes sess: "store (kv w) (sessionPrefix @ sid) = Some (Str (JSON s))"
    and live: "\<not> expired (kv w) (Date_now clk) (sessionPrefix @ sid)"
    and hist: "history_holds (kv w) sid ms"
    and ttl: "0 \<le> sessionTTL cfg"
    and found: "search cfg sv (vectorStore (ensure_initialized w)) query rag_topK = Inr docs"
    and some: "docs \<noteq> []"
    and gen: "generateContent sv (build_contents query docs (map role_content (last_ten ms)))
               = Inl err"
  shows "\<exists>st'. processQuery cfg sv w clk u1 u2 sid query
          = (Inl (Error ''Failed to generate response from Gemini API''),
             (ensure_initialized w)\<lparr>kv := st'\<rparr>)
      \<and> history_holds st' sid (ms @ [message_of clk u1 ''user'' query])"
proof -
  from pipeline_prefix [OF sess live hist ttl, of u1 query] obtain st1 st2 st3 where
    v: "validateSession cfg (kv w) clk sid = (True, st1)"
    and h: "getHistory st1 clk sid 10 = (Inr (last_ten ms), st2)"
    and a1: "addMessage cfg st2 clk u1 sid ''user'' query
               = (Inr (message_of clk u1 ''user'' query), st3)"
    and v3: "validated cfg st3 clk sid (ms @ [message_of clk u1 ''user'' query])"
    by blast
  have "processQuery cfg sv w clk u1 u2 sid query
          = (Inl (Error ''Failed to generate response from Gemini API''),
             (ensure_initialized w)\<lparr>kv := st3\<rparr>)"
    using some
    by (simp add: processQuery_def Let_def kv_ensure_initialized v h found a1
        generateResponse_def gen)
  moreover have "history_holds st3 sid (ms @ [message_of clk u1 ''user'' query])"
    using validated_history [OF v3] by simp
  ultimately show ?thesis by blast
qed


text \<open>
  When the stream completes, the texts passed to the sink are the chunks of the stream, in
  their order, and the answer is their concatenation.
\<close>

lemma stream_completed:
  assumes sess: "store (kv w) (sessionPrefix @ sid) = Some (Str (JSON s))"
    and live: "\<not> expired (kv w) (Date_now clk) (sessionPrefix @ sid)"
    and hist: "history_holds (kv w) sid ms"
    and ttl: "0 \<le> sessionTTL cfg"
    and found: "search cfg sv (vectorStore (ensure_initialized w)) query rag_topK = Inr docs"
    and some: "docs \<noteq> []"
    and texts: "list_all (\<lambda>d. r_text d \<noteq> None) docs"
    and gen: "generateContentStream sv (build_contents query docs (map role_content (last_ten ms)))
               = (chunks, None)"
  shows "\<exists>st' ss.
      processQueryStream cfg sv w clk u1 u2 sid query True
          = (Inr \<lparr>answer = concat chunks, sources = ss\<rparr>, (ensure_initialized w)\<lparr>kv := st'\<rparr>,
             chunks)"
  using stream_answered [OF sess live hist ttl found some texts
      streamResponse_completed [OF gen], where ?u1.0 = u1 and ?u2.0 = u2]
  by blast

lemma example_store_facts:
  "store example_store (sessionPrefix @ ''s1'')
     = Some (Str (JSON [(''id'', JStr ''s1''), (''createdAt'', JStr ''2024-01-01T00:00:01.000Z''),
                        (''messageCount'', JNum 0)]))"
  "\<not> expired example_store (Date_now example_clock) (sessionPrefix @ ''s1'')"
  "history_holds example_store ''s1'' []"
  "0 \<le> sessionTTL example_config"
  by (simp_all add: example_store_def createSession_def setex_def newInMemoryStore_def
      example_clock_def example_config_def expired_def history_holds_def sessionPrefix_def
      historyPrefix_def Let_def)

lemma example_world_facts:
  "kv (example_world vs) = example_store"
  "vectorStore (example_world vs) = vs"
  "ensure_initialized (example_world vs) = example_world vs"
  by (simp_all add: example_world_def ensure_initialized_def)

lemma example_search:
  "search example_config (failing_services status chunks) example_index ''weather today'' rag_topK
     = Inr example_results"
  "search example_config example_services example_index ''weather today'' rag_topK
     = Inr example_results"
  by (simp_all add: search_def topResults_def generateEmbeddings_def failing_services_def
      example_services_def example_config_def example_index_def example_scores js_sort_def
      compareFn_def js_slice_def example_differences rag_topK_def result_of_def
      at_index_def at_index_obj_def example_results_def
      del: cosineSimilarity.simps js_sub.simps)

lemma example_results_facts:
  "example_results \<noteq> []" "list_all (\<lambda>d. r_text d \<noteq> None) example_results"
  by (simp_all add: example_results_def)


theorem empty_corpus_canned_answer_witness:
  "documents (vectorStore (ensure_initialized (example_world newVectorStore))) = []
   \<and> \<not> expired (kv (example_world newVectorStore)) (Date_now example_clock) (sessionPrefix @ ''s1'')
   \<and> history_holds (kv (example_world newVectorStore)) ''s1'' []
   \<and> fst (processQuery example_config example_services (example_world newVectorStore)
             example_clock ''u1'' ''u2'' ''s1'' ''any news?'')
       = Inr \<lparr>answer = noDocsResponse, sources = []\<rparr>
   \<and> processQueryStream example_config example_services (example_world newVectorStore)
             example_clock ''u1'' ''u2'' ''s1'' ''any news?'' True
       = (Inr \<lparr>answer = noDocsResponse, sources = []\<rparr>,
          snd (processQuery example_config example_services (example_world newVectorStore)
             example_clock ''u1'' ''u2'' ''s1'' ''any news?''),
          [noDocsResponse])
   \<and> history_holds
         (kv (snd (processQuery example_config example_services (example_world newVectorStore)
             example_clock ''u1'' ''u2'' ''s1'' ''any news?''))) ''s1''
         [message_of example_clock ''u1'' ''user'' ''any news?'',
          message_of example_clock ''u2'' ''assistant'' noDocsResponse]"
proof -
  have empty: "documents (vectorStore (ensure_initialized (example_world newVectorStore))) = []"
    by (simp add: example_world_facts newVectorStore_def)
  have sess: "store (kv (example_world newVectorStore)) (sessionPrefix @ ''s1'')
     = Some (Str (JSON [(''id'', JStr ''s1''), (''createdAt'', JStr ''2024-01-01T00:00:01.000Z''),
                        (''messageCount'', JNum 0)]))"
    and live: "\<not> expired (kv (example_world newVectorStore)) (Date_now example_clock)
                 (sessionPrefix @ ''s1'')"
    and hist: "history_holds (kv (example_world newVectorStore)) ''s1'' []"
    by (simp_all add: example_world_facts example_store_facts)
  from empty_corpus_canned_answer [OF empty sess live hist example_store_facts(4),
      where sv = example_services and ?u1.0 = "''u1''" and ?u2.0 = "''u2''"
        and query = "''any news?''"]
  obtain st' where
    "processQuery example_config example_services (example_world newVectorStore)
         example_clock ''u1'' ''u2'' ''s1'' ''any news?''
       = (Inr \<lparr>answer = noDocsResponse, sources = []\<rparr>,
          (ensure_initialized (example_world newVectorStore))\<lparr>kv := st'\<rparr>)"
    "processQueryStream example_config example_services (example_world newVectorStore)
         example_clock ''u1'' ''u2'' ''s1'' ''any news?'' True
       = (Inr \<lparr>answer = noDocsResponse, sources = []\<rparr>,
          (ensure_initialized (example_world newVectorStore))\<lparr>kv := st'\<rparr>, [noDocsResponse])"
    "history_holds st' ''s1''
        ([] @ [message_of example_clock ''u1'' ''user'' ''any news?'',
               message_of example_clock ''u2'' ''assistant'' noDocsResponse])"
    by blast
  then show ?thesis using empty live hist by simp
qed

text \<open>
  C1, as amended. For a session that exists and has not expired and a retrieval that
  found passages, each with a text: when the stream of \<open>processQueryStream\<close> fails with
  status 429, the fallback answer of \<open>streamResponse\<close> takes the place of the generated
  one, it is passed to the sink, stored as the assistant turn and returned with the
  sources; when the stream fails with any other status, \<open>processQueryStream\<close> fails with
  the error of \<open>streamResponse\<close>, the user turn stays stored and no assistant turn is;
  and when the blocking generation fails with a status other than 429, \<open>processQuery\<close>
  fails with the error of \<open>generateResponse\<close>, again with the user turn stored only.
\<close>

theorem generation_failure_outcomes:
  assumes sess: "store (kv w) (sessionPrefix @ sid) = Some (Str (JSON s))"
    and live: "\<not> expired (kv w) (Date_now clk) (sessionPrefix @ sid)"
    and hist: "history_holds (kv w) sid ms"
    and ttl: "0 \<le> sessionTTL cfg"
    and found: "search cfg sv (vectorStore (ensure_initialized w)) query rag_topK = Inr docs"
    and some: "docs \<noteq> []"
    and texts: "list_all (\<lambda>d. r_text d \<noteq> None) docs"
  shows
   "(generateContentStream sv (build_contents query docs (map role_content (last_ten ms)))
        = (chunks, Some err) \<and> status_of err = Some 429
      \<longrightarrow> (\<exists>st' fallback ss. fallbackResponse docs = Inr fallback
            \<and> processQueryStream cfg sv w clk u1 u2 sid query True
                = (Inr \<lparr>answer = fallback, sources = ss\<rparr>, (ensure_initialized w)\<lparr>kv := st'\<rparr>,
                   chunks @ [fallback])
            \<and> history_holds st' sid
                (ms @ [message_of clk u1 ''user'' query,
                       message_of clk u2 ''assistant'' fallback])))
    \<and> (generateContentStream sv (build_contents query docs (map role_content (last_ten ms)))
        = (chunks, Some err) \<and> status_of err \<noteq> Some 429
      \<longrightarrow> (\<exists>st'. processQueryStream cfg sv w clk u1 u2 sid query True
                = (Inl (Error ''Failed to stream response from Gemini API''),
                   (ensure_initialized w)\<lparr>kv := st'\<rparr>, chunks)
            \<and> history_holds st' sid (ms @ [message_of clk u1 ''user'' query])))
    \<and> (generateContent sv (build_contents query docs (map role_content (last_ten ms)))
        = Inl err \<and> status_of err \<noteq> Some 429
      \<longrightarrow> (\<exists>st'. processQuery cfg sv w clk u1 u2 sid query
                = (Inl (Error ''Failed to generate response from Gemini API''),
                   (ensure_initialized w)\<lparr>kv := st'\<rparr>)
            \<and> history_holds st' sid (ms @ [message_of clk u1 ''user'' query])))"
proof (intro conjI impI)
  assume g: "generateContentStream sv (build_contents query docs (map role_content (last_ten ms)))
        = (chunks, Some err) \<and> status_of err = Some 429"
  from fallbackResponse_defined [OF texts] obtain fallback where
    fb: "fallbackResponse docs = Inr fallback" by blast
  have sr: "streamResponse sv query docs (map role_content (last_ten ms)) True
      = (Inr fallback, chunks @ [fallback])"
    using g fb by (simp add: streamResponse_rate_limited)
  from stream_answered [OF sess live hist ttl found some texts sr,
      where ?u1.0 = u1 and ?u2.0 = u2]
  show "\<exists>st' fallback ss. fallbackResponse docs = Inr fallback
            \<and> processQueryStream cfg sv w clk u1 u2 sid query True
                = (Inr \<lparr>answer = fallback, sources = ss\<rparr>, (ensure_initialized w)\<lparr>kv := st'\<rparr>,
                   chunks @ [fallback])
            \<and> history_holds st' sid
                (ms @ [message_of clk u1 ''user'' query,
                       message_of clk u2 ''assistant'' fallback])"
    using fb by blast
next
  assume g: "generateContentStream sv (build_contents query docs (map role_content (last_ten ms)))
        = (chunks, Some err) \<and> status_of err \<noteq> Some 429"
  have sr: "streamResponse sv query docs (map role_content (last_ten ms)) True
      = (Inl (Error ''Failed to stream response from Gemini API''), chunks)"
    using g by (simp add: streamResponse_failed)
  from stream_aborted [OF sess live hist ttl found some sr, where ?u1.0 = u1 and ?u2.0 = u2]
  show "\<exists>st'. processQueryStream cfg sv w clk u1 u2 sid query True
                = (Inl (Error ''Failed to stream response from Gemini API''),
                   (ensure_initialized w)\<lparr>kv := st'\<rparr>, chunks)
            \<and> history_holds st' sid (ms @ [message_of clk u1 ''user'' query])" .
next
  assume g: "generateContent sv (build_contents query docs (map role_content (last_ten ms)))
        = Inl err \<and> status_of err \<noteq> Some 429"
  then have gen: "generateContent sv (build_contents query docs (map role_content (last_ten ms)))
        = Inl err" by simp
  from blocking_aborted [OF sess live hist ttl found some gen, where ?u1.0 = u1 and ?u2.0 = u2]
  show "\<exists>st'. processQuery cfg sv w clk u1 u2 sid query
                = (Inl (Error ''Failed to generate response from Gemini API''),
                   (ensure_initialized w)\<lparr>kv := st'\<rparr>)
            \<and> history_holds st' sid (ms @ [message_of clk u1 ''user'' query])" .
qed


lemma example_request:
  "store (kv (example_world example_index)) (sessionPrefix @ ''s1'')
     = Some (Str (JSON [(''id'', JStr ''s1''), (''createdAt'', JStr ''2024-01-01T00:00:01.000Z''),
                        (''messageCount'', JNum 0)]))"
  "\<not> expired (kv (example_world example_index)) (Date_now example_clock) (sessionPrefix @ ''s1'')"
  "history_holds (kv (example_world example_index)) ''s1'' []"
  "search example_config (failing_services status chunks)
      (vectorStore (ensure_initialized (example_world example_index))) ''weather today'' rag_topK
     = Inr example_results"
  by (simp_all add: example_world_facts example_store_facts example_search)

lemma example_failure:
  "generateContentStream (failing_services status chunks) contents
     = (chunks, Some (ApiError status))"
  "generateContent (failing_services status chunks) contents = Inl (ApiError status)"
  by (simp_all add: failing_services_def)

text \<open>
  C1, as stated, fails: the stream of the generation component fails with status 500,
  and \<open>processQueryStream\<close> ends with an error; the history holds the user turn and no
  assistant turn.
\<close>

theorem generation_failure_aborts_pipeline:
  "generateContentStream (failing_services (Some 500) [])
       (build_contents ''weather today'' example_results [])
     = ([], Some (ApiError (Some 500)))
   \<and> fst (processQueryStream example_config (failing_services (Some 500) [])
            (example_world example_index) example_clock ''u1'' ''u2'' ''s1'' ''weather today'' True)
     = Inl (Error ''Failed to stream response from Gemini API'')
   \<and> history_holds
        (kv (fst (snd (processQueryStream example_config (failing_services (Some 500) [])
            (example_world example_index) example_clock ''u1'' ''u2'' ''s1'' ''weather today'' True))))
        ''s1'' [message_of example_clock ''u1'' ''user'' ''weather today'']"
proof -
  have sr: "streamResponse (failing_services (Some 500) []) ''weather today'' example_results
        (map role_content (last_ten [])) True
      = (Inl (Error ''Failed to stream response from Gemini API''), [])"
    by (rule streamResponse_failed [OF example_failure(1)]) simp
  from stream_aborted [OF example_request(1,2,3) example_store_facts(4) example_request(4)
      example_results_facts(1) sr, where ?u1.0 = "''u1''" and ?u2.0 = "''u2''"]
  obtain st' where
    "processQueryStream example_config (failing_services (Some 500) [])
        (example_world example_index) example_clock ''u1'' ''u2'' ''s1'' ''weather today'' True
      = (Inl (Error ''Failed to stream response from Gemini API''),
         (ensure_initialized (example_world example_index))\<lparr>kv := st'\<rparr>, [])"
    "history_holds st' ''s1'' ([] @ [message_of example_clock ''u1'' ''user'' ''weather today''])"
    by blast
  then show ?thesis by (simp add: example_failure)
qed

text \<open>
  C6. The stream delivers the chunk \<open>Sunny\<close> and then fails with status 429. The chunk
  was passed to the sink before the failure, the fallback answer is passed after it, and
  the call returns the fallback answer alone: the sink has received two deltas whose
  concatenation is not the answer.
\<close>

theorem stream_fallback_after_partial_output:
  "(case processQueryStream example_config (failing_services (Some 429) [''Sunny ''])
           (example_world example_index) example_clock ''u1'' ''u2'' ''s1'' ''weather today'' True of
      (Inr r, w', deltas) \<Rightarrow> deltas = [''Sunny '', answer r] \<and> concat deltas \<noteq> answer r
    | (Inl e, w', deltas) \<Rightarrow> False)"
proof -
  from fallbackResponse_defined [OF example_results_facts(2)] obtain fallback where
    fb: "fallbackResponse example_results = Inr fallback" by blast
  have sr: "streamResponse (failing_services (Some 429) [''Sunny '']) ''weather today''
        example_results (map role_content (last_ten [])) True
      = (Inr fallback, [''Sunny ''] @ [fallback])"
    by (rule streamResponse_rate_limited [OF example_failure(1) _ fb]) simp
  from stream_answered [OF example_request(1,2,3) example_store_facts(4) example_request(4)
      example_results_facts sr, where ?u1.0 = "''u1''" and ?u2.0 = "''u2''"]
  obtain st' ss where
    "processQueryStream example_config (failing_services (Some 429) [''Sunny ''])
        (example_world example_index) example_clock ''u1'' ''u2'' ''s1'' ''weather today'' True
      = (Inr \<lparr>answer = fallback, sources = ss\<rparr>,
         (ensure_initialized (example_world example_index))\<lparr>kv := st'\<rparr>,
         [''Sunny ''] @ [fallback])"
    by blast
  then show ?thesis by simp
qed

theorem generation_failure_outcomes_witness:
  "search example_config (failing_services (Some 429) [''Sunny ''])
      (vectorStore (ensure_initialized (example_world example_index))) ''weather today'' rag_topK
     = Inr example_results
   \<and> generateContentStream (failing_services (Some 429) [''Sunny ''])
        (build_contents ''weather today'' example_results (map role_content (last_ten [])))
     = ([''Sunny ''], Some (ApiError (Some 429)))
   \<and> (\<exists>st' fallback ss. fallbackResponse example_results = Inr fallback
        \<and> processQueryStream example_config (failing_services (Some 429) [''Sunny ''])
             (example_world example_index) example_clock ''u1'' ''u2'' ''s1'' ''weather today'' True
            = (Inr \<lparr>answer = fallback, sources = ss\<rparr>,
               (ensure_initialized (example_world example_index))\<lparr>kv := st'\<rparr>,
               [''Sunny ''] @ [fallback])
        \<and> history_holds st' ''s1''
             [message_of example_clock ''u1'' ''user'' ''weather today'',
              message_of example_clock ''u2'' ''assistant'' fallback])
   \<and> (\<exists>st'. processQueryStream example_config (failing_services (Some 500) [''Sunny ''])
             (example_world example_index) example_clock ''u1'' ''u2'' ''s1'' ''weather today'' True
            = (Inl (Error ''Failed to stream response from Gemini API''),
               (ensure_initialized (example_world example_index))\<lparr>kv := st'\<rparr>, [''Sunny ''])
        \<and> history_holds st' ''s1'' [message_of example_clock ''u1'' ''user'' ''weather today''])
   \<and> (\<exists>st'. processQuery example_config (failing_services (Some 500) [''Sunny ''])
             (example_world example_index) example_clock ''u1'' ''u2'' ''s1'' ''weather today''
            = (Inl (Error ''Failed to generate response from Gemini API''),
               (ensure_initialized (example_world example_index))\<lparr>kv := st'\<rparr>)
        \<and> history_holds st' ''s1'' [message_of example_clock ''u1'' ''user'' ''weather today''])"
  using
    generation_failure_outcomes [OF example_request(1,2,3) example_store_facts(4)
      example_request(4) [of "Some 429" "[''Sunny '']"] example_results_facts,
      where chunks = "[''Sunny '']" and err = "ApiError (Some 429)"
        and ?u1.0 = "''u1''" and ?u2.0 = "''u2''"]
    generation_failure_outcomes [OF example_request(1,2,3) example_store_facts(4)
      example_request(4) [of "Some 500" "[''Sunny '']"] example_results_facts,
      where chunks = "[''Sunny '']" and err = "ApiError (Some 500)"
        and ?u1.0 = "''u1''" and ?u2.0 = "''u2''"]
  by (simp add: example_failure example_request(4))

end
